theory Spec2Isabelle
  imports Main
begin

section \<open>MediaCodecVideoDecoder: data model\<close>

text \<open>
  The decoder drives an Android MediaCodec through the non-blocking calls of
  VideoCodecBridge. The codec, the codec allocator, the picture buffer manager, the GL
  context and the client are collaborators outside the decoder: every call the decoder makes
  on them is recorded, in order, in the field \<open>trace\<close>, and every value they return is read
  from the state (the scripted codec in \<open>media_codec\<close>, the record \<open>platform\<close>).
\<close>

datatype State = NO_ERROR | ERROR | WAITING_FOR_CODEC | WAITING_FOR_KEY | SURFACE_DESTROYED

datatype DrainType = DRAIN_TYPE_NONE | DRAIN_FOR_FLUSH | DRAIN_FOR_RESET | DRAIN_FOR_DESTROY

datatype MediaCodecStatus =
    MEDIA_CODEC_OK
  | MEDIA_CODEC_DEQUEUE_INPUT_AGAIN_LATER
  | MEDIA_CODEC_DEQUEUE_OUTPUT_AGAIN_LATER
  | MEDIA_CODEC_OUTPUT_BUFFERS_CHANGED
  | MEDIA_CODEC_OUTPUT_FORMAT_CHANGED
  | MEDIA_CODEC_INPUT_END_OF_STREAM
  | MEDIA_CODEC_OUTPUT_END_OF_STREAM
  | MEDIA_CODEC_NO_KEY
  | MEDIA_CODEC_ERROR

datatype VideoCodec = kUnknownVideoCodec | kCodecH264 | kCodecVP8 | kCodecVP9 | kCodecHEVC

datatype Error = INVALID_ARGUMENT | UNREADABLE_INPUT | PLATFORM_FAILURE

datatype OutputMode = ALLOCATE | IMPORT

datatype TaskType = AUTO_CODEC | SW_CODEC | FAILED_CODEC

text \<open>gfx::Size: width and height.\<close>

type_synonym Size = "int \<times> int"

text \<open>
  SharedMemoryRegion: \<open>region_memory\<close> is the address \<open>memory()\<close> returns once mapped,
  \<open>region_maps\<close> is what \<open>Map()\<close> returns.
\<close>

record SharedMemoryRegion =
  region_memory :: nat
  region_maps :: bool

record BitstreamBuffer =
  buffer_id :: int
  buffer_size :: nat
  presentation_timestamp :: int
  key_id :: string
  iv :: string

text \<open>
  BitstreamRecord: the buffer and the unique_ptr \<open>memory\<close> (null for the end-of-stream
  record of id -1, and null once moved out by QueueInput).
\<close>

record BitstreamRecord =
  buffer :: BitstreamBuffer
  memory :: "SharedMemoryRegion option"

text \<open>The constructor BitstreamRecord(bitstream_buffer), given the region the buffer's
  handle opens.\<close>

definition mk_BitstreamRecord :: "BitstreamBuffer \<Rightarrow> SharedMemoryRegion \<Rightarrow> BitstreamRecord" where
  "mk_BitstreamRecord b shm =
     \<lparr>buffer = b, memory = (if buffer_id b \<noteq> -1 then Some shm else None)\<rparr>"

text \<open>BitstreamBuffer(-1, base::SharedMemoryHandle(), 0): the end-of-stream marker.\<close>

definition eos_buffer :: BitstreamBuffer where
  "eos_buffer = \<lparr>buffer_id = -1, buffer_size = 0, presentation_timestamp = 0,
                  key_id = [], iv = []\<rparr>"

text \<open>What one call of VideoCodecBridge::DequeueOutputBuffer writes and returns.\<close>

record DequeueOutputResult =
  out_status :: MediaCodecStatus
  out_index :: int
  out_timestamp :: int
  out_eos :: bool

text \<open>
  VideoCodecBridge, scripted: each dequeue or queue call takes the head of its list; an
  exhausted list answers "again later" (for the dequeues) and MEDIA_CODEC_OK (for a
  queued input).
\<close>

record VideoCodecBridge =
  dequeue_input_results :: "(MediaCodecStatus \<times> int) list"
  queue_input_results :: "MediaCodecStatus list"
  dequeue_output_results :: "DequeueOutputResult list"
  get_output_size_result :: "MediaCodecStatus \<times> Size"
  needs_flush_workaround :: bool
  set_surface_ok :: bool

text \<open>
  What the platform outside the decoder answers: the GL callbacks, the picture buffer
  manager, AVDACodecAllocator, VideoCodecBridge::IsKnownUnaccelerated,
  MediaCodecUtil::CodecNeedsFlushWorkaround at a null codec,
  the build flags ENABLE_HEVC_DEMUXING and ENABLE_MOJO_MEDIA_IN_GPU_PROCESS, the device
  (SDK level, low-end or not) and the clock (microseconds).
\<close>

record Platform =
  make_context_current_ok :: bool
  has_unrendered_pictures :: bool
  use_codec_buffer_ok :: bool
  allocate_surface_ok :: bool
  pbm_surface_is_empty :: bool
  start_thread_ok :: bool
  task_type_for_allocation :: TaskType
  is_known_unaccelerated :: bool
  flush_workaround_without_codec :: bool
  pictures_overlayable :: bool
  gles2_decoder_ok :: bool
  gl_callbacks_null :: bool
  is_any_registered_avda :: bool
  is_low_end_device :: bool
  enable_mojo_media_in_gpu_process :: bool
  enable_hevc_demuxing :: bool
  sdk_int :: int
  now :: int

record Picture =
  picture_buffer_id :: int
  bitstream_buffer_id :: int
  visible_size :: Size
  allow_overlay :: bool
  size_changed :: bool

datatype Task =
    NotifyEndOfBitstreamBuffer int
  | NotifyFlushDone
  | NotifyResetDone
  | ActualDestroyTask

datatype Event =
    ClientNotifyError Error
  | CallNotifyPictureReady Picture
  | CallNotifyInitializationComplete bool
  | CallNotifyFlushDone
  | PostTask Task
  | CodecQueueEOS int
  | CodecQueueInputBuffer int "nat option" nat int
  | CodecQueueSecureInputBuffer int "nat option" nat string string int
  | CodecReleaseOutputBuffer int bool
  | CodecFlush
  | CodecSetSurface
  | ReleaseMediaCodec
  | CreateMediaCodecAsync
  | AllocateSurface int
  | StartThread
  | DeallocateSurface int
  | PbmMaybeRenderEarly
  | PbmCodecChanged bool
  | PbmReleaseCodecBuffers
  | PbmDestroy
  | PbmInitialize int
  | CdmRegisterPlayer
  | StopThread
  | PbmUseCodecBufferForPictureBuffer int int
  | InvalidateWeakPtrs
  | ManagerStartTimer
  | ManagerStopTimer
  | DeleteThis

text \<open>
  The fields of MediaCodecVideoDecoder (a field \<open>f_\<close> of the class is \<open>f\<close> here, \<open>size_\<close> is
  \<open>output_size\<close>; \<open>codec\<close>, \<open>task_type\<close> are those of \<open>codec_config_\<close>, \<open>is_encrypted\<close> and
  \<open>surface_id\<close> those of \<open>config_\<close>). \<open>client\<close> is the client pointer (False: null);
  \<open>most_recent_work\<close> counts microseconds, 0 being the null TimeTicks. \<open>fault\<close> is set where
  the C++ has no defined behaviour (a call through the null \<open>media_codec\<close>, \<open>front()\<close> of an
  empty queue, a function that ends without a return value). \<open>deleted\<close> is set by
  \<open>delete this\<close>.
\<close>

record MCVD =
  client :: bool
  state :: State
  drain_type :: DrainType
  media_codec :: "VideoCodecBridge option"
  codec :: VideoCodec
  is_encrypted :: bool
  surface_id :: int
  pending_surface_id :: "int option"
  pending_bitstream_records :: "BitstreamRecord list"
  bitstream_buffers_in_decoder :: "(int \<times> int) list"
  bitstreams_notified_in_advance :: "int list"
  free_picture_ids :: "int list"
  output_picture_buffers :: "(int \<times> Size) list"
  output_size :: Size
  pending_input_buf_index :: int
  deferred_initialization_pending :: bool
  codec_needs_reset :: bool
  defer_surface_creation :: bool
  most_recent_work :: int
  task_type :: TaskType
  initial_expected_coded_size :: Size
  deleted :: bool
  platform :: Platform
  trace :: "Event list"
  fault :: bool

definition kMaxBitstreamsNotifiedInAdvance :: nat where
  "kMaxBitstreamsNotifiedInAdvance = 32"

definition IdleTimerTimeOut :: int where
  "IdleTimerTimeOut = 1000000"

definition kNoSurfaceID :: int where
  "kNoSurfaceID = -1"

definition emit :: "Event \<Rightarrow> MCVD \<Rightarrow> MCVD" where
  "emit e s = s\<lparr>trace := trace s @ [e]\<rparr>"

text \<open>NotifyError: the state becomes ERROR; the client is told if there still is one.\<close>

definition NotifyError :: "Error \<Rightarrow> MCVD \<Rightarrow> MCVD" where
  "NotifyError err s =
     (let s1 = s\<lparr>state := ERROR\<rparr>
      in if client s1 then emit (ClientNotifyError err) s1 else s1)"

section \<open>The decoder's operations\<close>

subsection \<open>Containers\<close>

text \<open>
  \<open>bitstream_buffers_in_decoder_\<close> is a std::map from timestamp to bitstream id: a list of
  pairs in increasing key order. \<open>map_assign\<close> is \<open>m[k] = v\<close>, \<open>map_find\<close> is \<open>find\<close>, and
  \<open>erase_through k\<close> is \<open>erase(begin(), ++it)\<close> for the iterator \<open>it\<close> at key \<open>k\<close>.
\<close>

fun map_assign :: "int \<Rightarrow> int \<Rightarrow> (int \<times> int) list \<Rightarrow> (int \<times> int) list" where
  "map_assign k v [] = [(k, v)]"
| "map_assign k v ((k', v') # m) =
     (if k < k' then (k, v) # (k', v') # m
      else if k = k' then (k, v) # m
      else (k', v') # map_assign k v m)"

fun map_find :: "int \<Rightarrow> (int \<times> int) list \<Rightarrow> int option" where
  "map_find k [] = None"
| "map_find k ((k', v') # m) = (if k = k' then Some v' else map_find k m)"

fun erase_through :: "int \<Rightarrow> (int \<times> int) list \<Rightarrow> (int \<times> int) list" where
  "erase_through k [] = []"
| "erase_through k ((k', v') # m) = (if k = k' then m else erase_through k m)"

text \<open>
  The loop over \<open>bitstreams_notified_in_advance_\<close>: the list is cut after the first
  occurrence of the id; without an occurrence it stays as it is.
\<close>

fun erase_notified :: "int \<Rightarrow> int list \<Rightarrow> int list" where
  "erase_notified b [] = []"
| "erase_notified b (x # xs) = (if x = b then xs else erase_notified b xs)"

definition trim_notified :: "int \<Rightarrow> int list \<Rightarrow> int list" where
  "trim_notified b xs = (if b \<in> set xs then erase_notified b xs else xs)"

text \<open>\<open>output_picture_buffers_\<close>: picture buffer id to the size of the buffer.\<close>

fun set_picture_size :: "int \<Rightarrow> Size \<Rightarrow> (int \<times> Size) list \<Rightarrow> (int \<times> Size) list" where
  "set_picture_size p sz [] = []"
| "set_picture_size p sz ((p', sz') # m) =
     (if p = p' then (p', sz) # m else (p', sz') # set_picture_size p sz m)"

subsection \<open>Timer, codec construction and reset\<close>

definition IsDrainingForResetOrDestroy :: "MCVD \<Rightarrow> bool" where
  "IsDrainingForResetOrDestroy s \<longleftrightarrow>
     drain_type s = DRAIN_FOR_RESET \<or> drain_type s = DRAIN_FOR_DESTROY"

text \<open>IsMediaCodecSoftwareDecodingForbidden, on the decoder's own configuration.\<close>

definition IsMediaCodecSoftwareDecodingForbidden :: "MCVD \<Rightarrow> bool" where
  "IsMediaCodecSoftwareDecodingForbidden s \<longleftrightarrow>
     \<not> is_encrypted s \<and> (codec s = kCodecVP8 \<or> codec s = kCodecVP9)"

definition ManageTimer :: "bool \<Rightarrow> MCVD \<Rightarrow> MCVD" where
  "ManageTimer did_work s =
     (let t = now (platform s) in
      if \<not> did_work \<and> most_recent_work s \<noteq> 0
      then (if t - most_recent_work s > IdleTimerTimeOut
            then emit ManagerStopTimer (s\<lparr>most_recent_work := 0\<rparr>)
            else emit ManagerStartTimer s)
      else emit ManagerStartTimer (s\<lparr>most_recent_work := t\<rparr>))"

definition OnCodecConfigured :: "VideoCodecBridge option \<Rightarrow> MCVD \<Rightarrow> MCVD" where
  "OnCodecConfigured new_codec s =
     (let s1 = (if deferred_initialization_pending s
                then (emit (CallNotifyInitializationComplete
                        (if state s = SURFACE_DESTROYED then True else new_codec \<noteq> None)) s)
                      \<lparr>deferred_initialization_pending := False\<rparr>
                else s)
      in if state s1 = SURFACE_DESTROYED then s1
         else
           (let s2 = emit (PbmCodecChanged (new_codec \<noteq> None)) (s1\<lparr>media_codec := new_codec\<rparr>)
            in if new_codec = None then NotifyError PLATFORM_FAILURE s2
               else ManageTimer True (s2\<lparr>state := NO_ERROR\<rparr>)))"

definition ConfigureMediaCodecAsynchronously :: "MCVD \<Rightarrow> MCVD" where
  "ConfigureMediaCodecAsynchronously s =
     (let s1 = s\<lparr>state := WAITING_FOR_CODEC\<rparr>;
          s2 = (if media_codec s1 \<noteq> None
                then emit (PbmCodecChanged False) ((emit ReleaseMediaCodec s1)\<lparr>media_codec := None\<rparr>)
                else s1);
          s3 = s2\<lparr>task_type := task_type_for_allocation (platform s2)\<rparr>
      in if task_type s3 = FAILED_CODEC then OnCodecConfigured None s3
         else if task_type s3 = SW_CODEC \<and> IsMediaCodecSoftwareDecodingForbidden s3
         then OnCodecConfigured None s3
         else emit CreateMediaCodecAsync s3)"

definition ResetCodecState :: "MCVD \<Rightarrow> MCVD" where
  "ResetCodecState s =
     (if state s = WAITING_FOR_CODEC \<or> state s = SURFACE_DESTROYED then s
      else
        (let s1 = s\<lparr>bitstream_buffers_in_decoder := []\<rparr>;
             s2 = (if pending_input_buf_index s1 \<noteq> -1
                   then s1\<lparr>pending_input_buf_index := -1\<rparr> else s1);
             did_codec_error_happen = (state s2 = ERROR);
             s3 = s2\<lparr>state := NO_ERROR, codec_needs_reset := False\<rparr>
         in if drain_type s3 = DRAIN_FOR_FLUSH \<and> \<not> did_codec_error_happen
            then s3\<lparr>codec_needs_reset := True\<rparr>
            else if did_codec_error_happen
            then ConfigureMediaCodecAsynchronously (emit ManagerStopTimer s3)
            else (case media_codec s3 of
                    None \<Rightarrow>
                      if \<not> flush_workaround_without_codec (platform s3)
                      then s3\<lparr>fault := True\<rparr>
                      else ConfigureMediaCodecAsynchronously (emit ManagerStopTimer s3)
                  | Some c \<Rightarrow>
                      if \<not> needs_flush_workaround c
                      then emit (PbmCodecChanged True) (emit CodecFlush s3)
                      else ConfigureMediaCodecAsynchronously (emit ManagerStopTimer s3))))"

definition OnDrainCompleted :: "MCVD \<Rightarrow> MCVD" where
  "OnDrainCompleted s =
     (let s1 = (case drain_type s of
                  DRAIN_TYPE_NONE \<Rightarrow> ResetCodecState (s\<lparr>state := ERROR\<rparr>)
                | DRAIN_FOR_FLUSH \<Rightarrow> emit (PostTask NotifyFlushDone) (ResetCodecState s)
                | DRAIN_FOR_RESET \<Rightarrow> emit (PostTask NotifyResetDone) (ResetCodecState s)
                | DRAIN_FOR_DESTROY \<Rightarrow> emit (PostTask ActualDestroyTask) (ResetCodecState s))
      in s1\<lparr>drain_type := DRAIN_TYPE_NONE\<rparr>)"

subsection \<open>The I/O step\<close>

text \<open>The scripted codec answers: the head of a list, and the codec with that head taken.\<close>

definition next_dequeue_input :: "VideoCodecBridge \<Rightarrow> MediaCodecStatus \<times> int" where
  "next_dequeue_input c =
     (case dequeue_input_results c of
        [] \<Rightarrow> (MEDIA_CODEC_DEQUEUE_INPUT_AGAIN_LATER, -1)
      | r # rs \<Rightarrow> r)"

definition next_queue_input :: "VideoCodecBridge \<Rightarrow> MediaCodecStatus" where
  "next_queue_input c = (case queue_input_results c of [] \<Rightarrow> MEDIA_CODEC_OK | r # rs \<Rightarrow> r)"

definition pop_dequeue_input :: "VideoCodecBridge \<Rightarrow> VideoCodecBridge" where
  "pop_dequeue_input c = c\<lparr>dequeue_input_results := tl (dequeue_input_results c)\<rparr>"

definition pop_queue_input :: "VideoCodecBridge \<Rightarrow> VideoCodecBridge" where
  "pop_queue_input c = c\<lparr>queue_input_results := tl (queue_input_results c)\<rparr>"

text \<open>
  The call that submits a buffer: QueueInputBuffer when the key id or the iv is empty,
  QueueSecureInputBuffer otherwise; \<open>mem\<close> is the data pointer passed (None: null).
\<close>

definition queue_input_call :: "int \<Rightarrow> nat option \<Rightarrow> BitstreamBuffer \<Rightarrow> Event" where
  "queue_input_call input_buf_index mem b =
     (if key_id b = [] \<or> iv b = []
      then CodecQueueInputBuffer input_buf_index mem (buffer_size b) (presentation_timestamp b)
      else CodecQueueSecureInputBuffer input_buf_index mem (buffer_size b) (key_id b) (iv b)
             (presentation_timestamp b))"

text \<open>
  QueueInput from the point where an input buffer index is in hand (the DCHECK_NE line on).
  \<open>c\<close> is the codec behind \<open>media_codec_\<close>.
\<close>

definition QueueInput_submit :: "int \<Rightarrow> VideoCodecBridge \<Rightarrow> MCVD \<Rightarrow> bool \<times> MCVD" where
  "QueueInput_submit input_buf_index c s =
     (let front = hd (pending_bitstream_records s);
          bitstream_buffer = buffer front
      in if buffer_id bitstream_buffer = -1
         then (True, emit (CodecQueueEOS input_buf_index)
                       (s\<lparr>pending_bitstream_records := tl (pending_bitstream_records s)\<rparr>))
         else
           (let shm = (if pending_input_buf_index s = -1 then memory front else None);
                s1 = (if pending_input_buf_index s = -1
                      then s\<lparr>pending_bitstream_records :=
                              (front\<lparr>memory := None\<rparr>) # tl (pending_bitstream_records s)\<rparr>
                      else s)
            in if pending_input_buf_index s = -1 \<and> shm = None
               then (False, s1\<lparr>fault := True\<rparr>)
               else if pending_input_buf_index s = -1 \<and> \<not> region_maps (the shm)
               then (False, NotifyError UNREADABLE_INPUT s1)
               else
                 (let ts = presentation_timestamp bitstream_buffer;
                      s2 = s1\<lparr>bitstream_buffers_in_decoder :=
                              map_assign ts (buffer_id bitstream_buffer)
                                (bitstream_buffers_in_decoder s1)\<rparr>;
                      mem = map_option region_memory shm;
                      status = next_queue_input c;
                      s3 = (emit (queue_input_call input_buf_index mem bitstream_buffer) s2)
                             \<lparr>media_codec := Some (pop_queue_input c)\<rparr>
                  in if status = MEDIA_CODEC_NO_KEY
                     then (False, s3\<lparr>pending_input_buf_index := input_buf_index,
                                    state := WAITING_FOR_KEY\<rparr>)
                     else
                       (let s4 = emit (PostTask (NotifyEndOfBitstreamBuffer
                                         (buffer_id bitstream_buffer)))
                                   (s3\<lparr>pending_input_buf_index := -1,
                                       pending_bitstream_records :=
                                         tl (pending_bitstream_records s3)\<rparr>);
                            s5 = s4\<lparr>bitstreams_notified_in_advance :=
                                      bitstreams_notified_in_advance s4
                                      @ [buffer_id bitstream_buffer]\<rparr>
                        in if status \<noteq> MEDIA_CODEC_OK
                           then (False, NotifyError PLATFORM_FAILURE s5)
                           else (True, s5)))))"

definition QueueInput :: "MCVD \<Rightarrow> bool \<times> MCVD" where
  "QueueInput s =
     (if state s = ERROR \<or> state s = WAITING_FOR_CODEC \<or> state s = WAITING_FOR_KEY
      then (False, s)
      else if length (bitstreams_notified_in_advance s) > kMaxBitstreamsNotifiedInAdvance
      then (False, s)
      else if pending_bitstream_records s = [] then (False, s)
      else
        (case media_codec s of
           None \<Rightarrow> (False, s\<lparr>fault := True\<rparr>)
         | Some c \<Rightarrow>
             if pending_input_buf_index s = -1
             then
               (let (status, index) = next_dequeue_input c;
                    c1 = pop_dequeue_input c;
                    s1 = s\<lparr>media_codec := Some c1\<rparr>
                in case status of
                     MEDIA_CODEC_DEQUEUE_INPUT_AGAIN_LATER \<Rightarrow> (False, s1)
                   | MEDIA_CODEC_ERROR \<Rightarrow> (False, NotifyError PLATFORM_FAILURE s1)
                   | MEDIA_CODEC_OK \<Rightarrow> QueueInput_submit index c1 s1
                   | _ \<Rightarrow> (False, s1))
             else QueueInput_submit (pending_input_buf_index s) c s))"

definition SendDecodedFrameToClient :: "int \<Rightarrow> int \<Rightarrow> MCVD \<Rightarrow> MCVD" where
  "SendDecodedFrameToClient codec_buffer_index bitstream_id s =
     (if \<not> make_context_current_ok (platform s) then NotifyError PLATFORM_FAILURE s
      else
        (case free_picture_ids s of
           [] \<Rightarrow> s\<lparr>fault := True\<rparr>
         | pid # rest \<Rightarrow>
             (let s1 = s\<lparr>free_picture_ids := rest\<rparr>
              in case map_of (output_picture_buffers s1) pid of
                   None \<Rightarrow> NotifyError PLATFORM_FAILURE s1
                 | Some sz \<Rightarrow>
                     (let changed = (sz \<noteq> output_size s1);
                          s2 = (if changed
                                then s1\<lparr>output_picture_buffers :=
                                        set_picture_size pid (output_size s1)
                                          (output_picture_buffers s1)\<rparr>
                                else s1);
                          picture = \<lparr>picture_buffer_id = pid,
                                     bitstream_buffer_id = bitstream_id,
                                     visible_size = output_size s2,
                                     allow_overlay = pictures_overlayable (platform s2),
                                     size_changed = changed\<rparr>;
                          s3 = emit (PbmUseCodecBufferForPictureBuffer codec_buffer_index pid)
                                 (emit (CallNotifyPictureReady picture) s2)
                      in if \<not> use_codec_buffer_ok (platform s3)
                         then NotifyError PLATFORM_FAILURE s3
                         else s3))))"

definition release_codec_after_failed_switch :: "MCVD \<Rightarrow> MCVD" where
  "release_codec_after_failed_switch s =
     (if media_codec s \<noteq> None
      then emit (PbmCodecChanged False) ((emit ReleaseMediaCodec s)\<lparr>media_codec := None\<rparr>)
      else s)"

text \<open>
  UpdateSurface, in two parts. \<open>switch_surface\<close> is the chain of steps guarded by the
  \<open>success\<close> flag (allocate the new surface, make the context current, initialize the
  picture buffer manager, hand the surface to the codec): the first step that fails reports
  PLATFORM_FAILURE and the later ones are skipped. UpdateSurface then records the new surface
  id or, on failure, releases the codec and the new surface, and gives up the previous
  surface in both cases.
\<close>

definition switch_surface :: "int \<Rightarrow> MCVD \<Rightarrow> bool \<times> MCVD" where
  "switch_surface new_surface_id s =
     (let s1 = emit (AllocateSurface new_surface_id) s
      in if \<not> allocate_surface_ok (platform s1) then (False, NotifyError PLATFORM_FAILURE s1)
         else if \<not> make_context_current_ok (platform s1)
         then (False, NotifyError PLATFORM_FAILURE s1)
         else
           (let s2 = emit (PbmInitialize new_surface_id) s1
            in if pbm_surface_is_empty (platform s2)
               then (False, NotifyError PLATFORM_FAILURE s2)
               else
                 (case media_codec s2 of
                    None \<Rightarrow> (True, s2)
                  | Some c \<Rightarrow>
                      (let s3 = emit CodecSetSurface s2
                       in if \<not> set_surface_ok c
                          then (False, NotifyError PLATFORM_FAILURE s3)
                          else (True, s3)))))"

definition UpdateSurface :: "MCVD \<Rightarrow> bool \<times> MCVD" where
  "UpdateSurface s =
     (case pending_surface_id s of
        None \<Rightarrow> (False, s\<lparr>fault := True\<rparr>)
      | Some new_surface_id \<Rightarrow>
          (let previous_surface_id = surface_id s;
               (success, s5) = switch_surface new_surface_id (s\<lparr>pending_surface_id := None\<rparr>);
               s6 = (if success then s5\<lparr>surface_id := new_surface_id\<rparr>
                     else emit (DeallocateSurface new_surface_id)
                            (release_codec_after_failed_switch s5))
           in (success, emit (DeallocateSurface previous_surface_id) s6)))"

text \<open>
  The do-while of DequeueOutput around DequeueOutputBuffer, over the answers \<open>rs\<close> the codec
  still has. It either returns from DequeueOutput (Inl) or leaves the loop with the answer
  that wrote a non-negative \<open>buf_index\<close> (Inr).
\<close>

definition set_output_results :: "DequeueOutputResult list \<Rightarrow> MCVD \<Rightarrow> MCVD" where
  "set_output_results rs s =
     s\<lparr>media_codec := map_option (\<lambda>c. c\<lparr>dequeue_output_results := rs\<rparr>) (media_codec s)\<rparr>"

fun DequeueOutput_loop ::
  "DequeueOutputResult list \<Rightarrow> MCVD \<Rightarrow> (bool \<times> MCVD) + (DequeueOutputResult \<times> MCVD)" where
  "DequeueOutput_loop [] s = Inl (False, s)"
| "DequeueOutput_loop (r # rs) s =
     (let s1 = set_output_results rs s
      in case out_status r of
           MEDIA_CODEC_ERROR \<Rightarrow>
             if IsDrainingForResetOrDestroy s1
             then Inl (False, OnDrainCompleted (s1\<lparr>state := ERROR\<rparr>))
             else Inl (False, NotifyError PLATFORM_FAILURE s1)
         | MEDIA_CODEC_DEQUEUE_OUTPUT_AGAIN_LATER \<Rightarrow> Inl (False, s1)
         | MEDIA_CODEC_OUTPUT_FORMAT_CHANGED \<Rightarrow>
             if drain_type s1 = DRAIN_FOR_DESTROY then Inl (True, s1)
             else
               (case media_codec s1 of
                  None \<Rightarrow> Inl (False, s1\<lparr>fault := True\<rparr>)
                | Some c \<Rightarrow>
                    if fst (get_output_size_result c) \<noteq> MEDIA_CODEC_OK
                    then Inl (False, NotifyError PLATFORM_FAILURE s1)
                    else Inl (True, s1\<lparr>output_size := snd (get_output_size_result c)\<rparr>))
         | _ \<Rightarrow> if out_index r < 0 then DequeueOutput_loop rs s1 else Inr (r, s1))"

text \<open>DequeueOutput after the loop: \<open>r\<close> is the answer that ended it.\<close>

definition DequeueOutput_deliver :: "DequeueOutputResult \<Rightarrow> MCVD \<Rightarrow> bool \<times> MCVD" where
  "DequeueOutput_deliver r s =
     (if out_eos r then (False, OnDrainCompleted s)
      else if IsDrainingForResetOrDestroy s
      then (True, emit (CodecReleaseOutputBuffer (out_index r) False) s)
      else
        (case map_find (out_timestamp r) (bitstream_buffers_in_decoder s) of
           Some bitstream_id \<Rightarrow>
             (let s1 = s\<lparr>bitstream_buffers_in_decoder :=
                          erase_through (out_timestamp r) (bitstream_buffers_in_decoder s)\<rparr>;
                  s2 = SendDecodedFrameToClient (out_index r) bitstream_id s1
              in (True, s2\<lparr>bitstreams_notified_in_advance :=
                            trim_notified bitstream_id (bitstreams_notified_in_advance s2)\<rparr>))
         | None \<Rightarrow> (True, emit (CodecReleaseOutputBuffer (out_index r) False) s)))"

definition DequeueOutput :: "MCVD \<Rightarrow> bool \<times> MCVD" where
  "DequeueOutput s =
     (if state s = ERROR \<or> state s = WAITING_FOR_CODEC then (False, s)
      else if output_picture_buffers s \<noteq> [] \<and> free_picture_ids s = [] \<and>
              \<not> IsDrainingForResetOrDestroy s
      then (False, s)
      else if pending_surface_id s \<noteq> None \<and> has_unrendered_pictures (platform s)
      then (False, s)
      else
        (let (ok, s1) = (if pending_surface_id s \<noteq> None then UpdateSurface s else (True, s))
         in if \<not> ok then (False, s1)
            else
              (case media_codec s1 of
                 None \<Rightarrow> (False, s1\<lparr>fault := True\<rparr>)
               | Some c \<Rightarrow>
                   (case DequeueOutput_loop (dequeue_output_results c) s1 of
                      Inl res \<Rightarrow> res
                    | Inr (r, s2) \<Rightarrow> DequeueOutput_deliver r s2))))"

text \<open>
  The do-while of DoIOTask. A round that makes progress takes a record off the pending
  queue or an answer off the codec's output, so \<open>io_measure\<close> bounds the number of rounds:
  \<open>DoIOTask_rounds\<close> is the loop, run for at most the given number of rounds, and DoIOTask
  gives it one round more than \<open>io_measure\<close> (the bound is not reached, see
  \<open>DoIOTask_rounds_enough\<close>).
\<close>

definition out_len :: "MCVD \<Rightarrow> nat" where
  "out_len s = (case media_codec s of None \<Rightarrow> 0 | Some c \<Rightarrow> length (dequeue_output_results c))"

definition io_measure :: "MCVD \<Rightarrow> nat" where
  "io_measure s = length (pending_bitstream_records s) + out_len s"

fun DoIOTask_rounds :: "nat \<Rightarrow> bool \<Rightarrow> MCVD \<Rightarrow> bool \<times> MCVD" where
  "DoIOTask_rounds 0 did_work s = (did_work, s)"
| "DoIOTask_rounds (Suc n) did_work s =
     (let (did_input, s1) = QueueInput s;
          (did_output, s2) = DequeueOutput s1
      in if did_input \<or> did_output then DoIOTask_rounds n True s2 else (did_work, s2))"

definition DoIOTask :: "bool \<Rightarrow> MCVD \<Rightarrow> MCVD" where
  "DoIOTask start_timer s =
     (if state s = ERROR \<or> state s = WAITING_FOR_CODEC \<or> state s = SURFACE_DESTROYED then s
      else
        (let s1 = emit PbmMaybeRenderEarly s;
             (did_work, s2) = DoIOTask_rounds (Suc (io_measure s1)) False s1
         in ManageTimer (did_work \<or> start_timer) s2))"

subsection \<open>The client's requests\<close>

definition DecodeBuffer :: "BitstreamRecord \<Rightarrow> MCVD \<Rightarrow> MCVD" where
  "DecodeBuffer r s =
     DoIOTask True (s\<lparr>pending_bitstream_records := pending_bitstream_records s @ [r]\<rparr>)"

definition StartCodecDrain :: "DrainType \<Rightarrow> MCVD \<Rightarrow> MCVD" where
  "StartCodecDrain dt s =
     (let enqueue_eos = (drain_type s = DRAIN_TYPE_NONE);
          s1 = s\<lparr>drain_type := dt\<rparr>
      in if enqueue_eos then DecodeBuffer \<lparr>buffer = eos_buffer, memory = None\<rparr> s1 else s1)"

definition InitializeCdm :: "MCVD \<Rightarrow> MCVD" where
  "InitializeCdm s =
     (if \<not> enable_mojo_media_in_gpu_process (platform s)
      then emit (CallNotifyInitializationComplete False) s
      else emit CdmRegisterPlayer s)"

definition InitializePictureBufferManager :: "MCVD \<Rightarrow> bool \<times> MCVD" where
  "InitializePictureBufferManager s =
     (if \<not> make_context_current_ok (platform s) then (False, s)
      else
        (let s1 = emit (PbmInitialize (surface_id s)) s
         in if pbm_surface_is_empty (platform s1) then (False, s1)
            else
              (let s2 = emit StartThread s1
               in if \<not> start_thread_ok (platform s2) then (False, s2)
                  else if is_encrypted s2 then (True, InitializeCdm s2)
                  else if deferred_initialization_pending s2 \<or> defer_surface_creation s2
                  then (True, ConfigureMediaCodecAsynchronously
                                (s2\<lparr>defer_surface_creation := False\<rparr>))
                  else (False, s2\<lparr>fault := True\<rparr>))))"

text \<open>Decode, given the shared memory region the buffer's handle opens.\<close>

definition Decode :: "BitstreamBuffer \<Rightarrow> SharedMemoryRegion \<Rightarrow> MCVD \<Rightarrow> MCVD" where
  "Decode bitstream_buffer shm s =
     (let (ok, s1) = (if defer_surface_creation s then InitializePictureBufferManager s
                      else (True, s))
      in if \<not> ok then NotifyError PLATFORM_FAILURE s1
         else
           (let s2 = (if codec_needs_reset s1 then ResetCodecState s1 else s1)
            in if buffer_id bitstream_buffer \<ge> 0 \<and> buffer_size bitstream_buffer > 0
               then DecodeBuffer (mk_BitstreamRecord bitstream_buffer shm) s2
               else if buffer_id bitstream_buffer < 0
               then NotifyError INVALID_ARGUMENT s2
               else emit (PostTask (NotifyEndOfBitstreamBuffer (buffer_id bitstream_buffer))) s2))"

definition Flush :: "MCVD \<Rightarrow> MCVD" where
  "Flush s =
     (if state s = SURFACE_DESTROYED \<or> defer_surface_creation s
      then emit CallNotifyFlushDone s
      else StartCodecDrain DRAIN_FOR_FLUSH s)"

text \<open>The while loop of Reset: one posted notification for each pending record whose id
  is not -1, in queue order.\<close>

fun cancel_pending :: "BitstreamRecord list \<Rightarrow> MCVD \<Rightarrow> MCVD" where
  "cancel_pending [] s = s"
| "cancel_pending (r # rs) s =
     cancel_pending rs
       (if buffer_id (buffer r) \<noteq> -1
        then emit (PostTask (NotifyEndOfBitstreamBuffer (buffer_id (buffer r)))) s
        else s)"

definition Reset :: "MCVD \<Rightarrow> MCVD" where
  "Reset s =
     (if defer_surface_creation s then emit (PostTask NotifyResetDone) s
      else
        (let s1 = (cancel_pending (pending_bitstream_records s) s)
                    \<lparr>pending_bitstream_records := []\<rparr>;
             s2 = emit PbmReleaseCodecBuffers (s1\<lparr>bitstreams_notified_in_advance := []\<rparr>)
         in if media_codec s2 \<noteq> None \<and> codec s2 = kCodecVP8 \<and>
               bitstream_buffers_in_decoder s2 \<noteq> []
            then StartCodecDrain DRAIN_FOR_RESET s2
            else emit (PostTask NotifyResetDone) (ResetCodecState s2)))"

definition SetSurface :: "int \<Rightarrow> MCVD \<Rightarrow> MCVD" where
  "SetSurface new_surface_id s =
     (if new_surface_id = surface_id s then s\<lparr>pending_surface_id := None\<rparr>
      else s\<lparr>pending_surface_id := Some new_surface_id\<rparr>)"

text \<open>The destructor, run by \<open>delete this\<close>.\<close>

definition destructor :: "MCVD \<Rightarrow> MCVD" where
  "destructor s = (emit StopThread (emit ManagerStopTimer s))\<lparr>deleted := True\<rparr>"

definition ActualDestroy :: "MCVD \<Rightarrow> MCVD" where
  "ActualDestroy s =
     (let s1 = emit ManagerStopTimer (emit InvalidateWeakPtrs s);
          s2 = (if media_codec s1 \<noteq> None
                then (emit ReleaseMediaCodec s1)\<lparr>media_codec := None\<rparr>
                else s1)
      in destructor (emit DeleteThis (emit (DeallocateSurface (surface_id s2)) s2)))"

definition Destroy :: "MCVD \<Rightarrow> MCVD" where
  "Destroy s =
     (let s1 = (emit PbmDestroy s)\<lparr>client := False\<rparr>
      in if media_codec s1 \<noteq> None \<and> codec s1 = kCodecVP8
         then StartCodecDrain DRAIN_FOR_DESTROY (s1\<lparr>pending_bitstream_records := []\<rparr>)
         else ActualDestroy s1)"



subsection \<open>Initialization\<close>

text \<open>
  VideoDecodeAccelerator::Config, as far as Initialize reads it; \<open>cfg_codec\<close> is
  VideoCodecProfileToVideoCodec(config.profile).
\<close>

record Config =
  output_mode :: OutputMode
  cfg_codec :: VideoCodec
  cfg_initial_expected_coded_size :: Size
  cfg_surface_id :: int
  cfg_is_encrypted :: bool
  is_deferred_initialization_allowed :: bool

definition ShouldDeferSurfaceCreation :: "Platform \<Rightarrow> int \<Rightarrow> VideoCodec \<Rightarrow> bool" where
  "ShouldDeferSurfaceCreation p sid c \<longleftrightarrow>
     sid = kNoSurfaceID \<and> c = kCodecH264 \<and> is_any_registered_avda p \<and>
     (sdk_int p \<le> 18 \<or> is_low_end_device p)"

definition Initialize :: "Config \<Rightarrow> MCVD \<Rightarrow> bool \<times> MCVD" where
  "Initialize config s =
     (if gl_callbacks_null (platform s) then (False, s)
      else if output_mode config \<noteq> ALLOCATE then (False, s)
      else
        (let s1 = s\<lparr>client := True,
                     surface_id := cfg_surface_id config,
                     is_encrypted := cfg_is_encrypted config,
                     codec := cfg_codec config,
                     initial_expected_coded_size := cfg_initial_expected_coded_size config\<rparr>
         in if codec s1 \<noteq> kCodecVP8 \<and> codec s1 \<noteq> kCodecVP9 \<and>
               \<not> (enable_hevc_demuxing (platform s1) \<and> codec s1 = kCodecHEVC) \<and>
               codec s1 \<noteq> kCodecH264
            then (False, s1)
            else if IsMediaCodecSoftwareDecodingForbidden s1 \<and>
                    is_known_unaccelerated (platform s1)
            then (False, s1)
            else if \<not> gles2_decoder_ok (platform s1) then (False, s1)
            else if ShouldDeferSurfaceCreation (platform s1) (surface_id s1) (codec s1)
            then (True, emit (CallNotifyInitializationComplete True)
                          (s1\<lparr>defer_surface_creation := True\<rparr>))
            else
              (let s2 = s1\<lparr>deferred_initialization_pending :=
                             is_deferred_initialization_allowed config\<rparr>
               in if is_encrypted s2 \<and> \<not> deferred_initialization_pending s2
                  then (False, s2)
                  else
                    (let s3 = emit (AllocateSurface (surface_id s2)) s2
                     in if allocate_surface_ok (platform s3)
                        then InitializePictureBufferManager s3
                        else (True, s3)))))"

text \<open>
  ConfigSupported, the file-local check on a VideoDecoderConfig (codec, coded size,
  encrypted or not). Nothing in the file calls it. The two booleans are
  MediaCodecUtil::IsVp8DecoderAvailable() and IsVp9DecoderAvailable().
\<close>

record VideoDecoderConfig =
  vdc_codec :: VideoCodec
  coded_size :: Size
  vdc_is_encrypted :: bool

definition ConfigSupported ::
  "Platform \<Rightarrow> bool \<Rightarrow> bool \<Rightarrow> VideoDecoderConfig \<Rightarrow> bool" where
  "ConfigSupported p vp8_available vp9_available config =
     (let c = vdc_codec config; sz = coded_size config
      in if (\<not> vdc_is_encrypted config \<and> (c = kCodecVP8 \<or> c = kCodecVP9)) \<and>
            is_known_unaccelerated p
         then False
         else if fst sz > 3840 \<or> snd sz > 2160 then False
         else if c = kCodecVP8 \<or> c = kCodecVP9
         then (if (c = kCodecVP8 \<and> \<not> vp8_available) \<or> (c = kCodecVP9 \<and> \<not> vp9_available)
               then False
               else if vdc_is_encrypted config then True
               else if fst sz < 480 \<or> snd sz < 360 then False
               else True)
         else if c = kCodecH264 then True
         else if c = kCodecHEVC \<and> enable_hevc_demuxing p then True
         else False)"

text \<open>The decoder as the constructor leaves it, on a given platform.\<close>

definition mcvd_init :: "Platform \<Rightarrow> MCVD" where
  "mcvd_init p =
     \<lparr>client = False, state = NO_ERROR, drain_type = DRAIN_TYPE_NONE, media_codec = None,
      codec = kUnknownVideoCodec, is_encrypted = False, surface_id = 0,
      pending_surface_id = None, pending_bitstream_records = [],
      bitstream_buffers_in_decoder = [], bitstreams_notified_in_advance = [],
      free_picture_ids = [], output_picture_buffers = [], output_size = (0, 0),
      pending_input_buf_index = -1, deferred_initialization_pending = False,
      codec_needs_reset = False, defer_surface_creation = False, most_recent_work = 0,
      task_type = AUTO_CODEC, initial_expected_coded_size = (0, 0), deleted = False,
      platform = p, trace = [], fault = False\<rparr>"

subsection \<open>Concrete collaborators\<close>

text \<open>A platform on which every call succeeds, and a codec with nothing to report.\<close>

definition ok_platform :: Platform where
  "ok_platform =
     \<lparr>make_context_current_ok = True, has_unrendered_pictures = False,
      use_codec_buffer_ok = True, allocate_surface_ok = True, pbm_surface_is_empty = False,
      start_thread_ok = True, task_type_for_allocation = AUTO_CODEC,
      is_known_unaccelerated = False, flush_workaround_without_codec = False,
      pictures_overlayable = False, gles2_decoder_ok = True, gl_callbacks_null = False,
      is_any_registered_avda = False, is_low_end_device = False,
      enable_mojo_media_in_gpu_process = False, enable_hevc_demuxing = False,
      sdk_int = 23, now = 0\<rparr>"

definition idle_codec :: VideoCodecBridge where
  "idle_codec =
     \<lparr>dequeue_input_results = [], queue_input_results = [], dequeue_output_results = [],
      get_output_size_result = (MEDIA_CODEC_OK, (640, 480)), needs_flush_workaround = False,
      set_surface_ok = True\<rparr>"

text \<open>A client configuration for H264 at 4096x4096, beyond the 3840x2160 of
  ConfigSupported.\<close>

definition oversize_config :: Config where
  "oversize_config =
     \<lparr>output_mode = ALLOCATE, cfg_codec = kCodecH264,
      cfg_initial_expected_coded_size = (4096, 4096), cfg_surface_id = 7,
      cfg_is_encrypted = False, is_deferred_initialization_allowed = True\<rparr>"

text \<open>
  A decoder in steady state on \<open>ok_platform\<close>: H264, a client, and a codec that hands out
  input buffer 0 and accepts every input, with no output to report.
\<close>

definition accepting_codec :: "nat \<Rightarrow> VideoCodecBridge" where
  "accepting_codec n = idle_codec\<lparr>dequeue_input_results := replicate n (MEDIA_CODEC_OK, 0)\<rparr>"

definition steady_decoder :: "VideoCodecBridge \<Rightarrow> MCVD" where
  "steady_decoder c =
     (mcvd_init ok_platform)\<lparr>client := True, codec := kCodecH264, media_codec := Some c\<rparr>"

text \<open>The client's buffer number \<open>i\<close>: id \<open>i\<close>, 100 bytes, timestamp \<open>1000 * i\<close>, not
  encrypted; and the mapped region behind every such buffer.\<close>

definition plain_buffer :: "nat \<Rightarrow> BitstreamBuffer" where
  "plain_buffer i = \<lparr>buffer_id = int i, buffer_size = 100,
                      presentation_timestamp = 1000 * int i, key_id = [], iv = []\<rparr>"

definition mapped_region :: SharedMemoryRegion where
  "mapped_region = \<lparr>region_memory = 4096, region_maps = True\<rparr>"

text \<open>A steady decoder after 32 accepted inputs without output (ids 0 to 31 notified in
  advance and inside the codec), with the client's buffer 32 at the head of the pending
  queue.\<close>

definition at_limit_decoder :: MCVD where
  "at_limit_decoder =
     (steady_decoder (accepting_codec 1))
       \<lparr>bitstreams_notified_in_advance := map int [0..<32],
        bitstream_buffers_in_decoder := map (\<lambda>i. (1000 * int i, int i)) [0..<32],
        pending_bitstream_records := [mk_BitstreamRecord (plain_buffer 32) mapped_region]\<rparr>"

section \<open>Observations on a run\<close>

text \<open>The bitstream ids of the pictures handed to the client, and the ids of the posted
  NotifyEndOfBitstreamBuffer tasks, in order.\<close>

fun picture_ready_ids :: "Event list \<Rightarrow> int list" where
  "picture_ready_ids [] = []"
| "picture_ready_ids (CallNotifyPictureReady p # es) = bitstream_buffer_id p # picture_ready_ids es"
| "picture_ready_ids (e # es) = picture_ready_ids es"

fun eobb_ids :: "Event list \<Rightarrow> int list" where
  "eobb_ids [] = []"
| "eobb_ids (PostTask (NotifyEndOfBitstreamBuffer b) # es) = b # eobb_ids es"
| "eobb_ids (e # es) = eobb_ids es"

fun client_errors :: "Event list \<Rightarrow> Error list" where
  "client_errors [] = []"
| "client_errors (ClientNotifyError err # es) = err # client_errors es"
| "client_errors (e # es) = client_errors es"

definition count_release :: "Event list \<Rightarrow> nat" where
  "count_release es = length (filter (\<lambda>e. e = ReleaseMediaCodec) es)"

definition present :: "MCVD \<Rightarrow> nat" where
  "present s = (if media_codec s = None then 0 else 1)"

text \<open>An event that tells the client nothing about a bitstream buffer: neither a picture
  nor a posted NotifyEndOfBitstreamBuffer.\<close>

fun quiet :: "Event \<Rightarrow> bool" where
  "quiet (CallNotifyPictureReady p) = False"
| "quiet (PostTask (NotifyEndOfBitstreamBuffer b)) = False"
| "quiet e = True"

definition any_event :: "Event \<Rightarrow> bool" where
  "any_event e = True"

text \<open>The ActualDestroy task has been posted.\<close>

definition destroy_posted :: "MCVD \<Rightarrow> bool" where
  "destroy_posted s \<longleftrightarrow> PostTask ActualDestroyTask \<in> set (trace s)"

text \<open>The drain intent over a step: kept, or ended, and a drain for destroy ends only with
  the ActualDestroy task posted; while a drain for destroy goes on, that task is not
  posted.\<close>

definition drain_ok :: "MCVD \<Rightarrow> MCVD \<Rightarrow> bool" where
  "drain_ok s s' \<longleftrightarrow>
     (drain_type s' = drain_type s \<or>
      (drain_type s' = DRAIN_TYPE_NONE \<and>
       (drain_type s = DRAIN_FOR_DESTROY \<longrightarrow> destroy_posted s'))) \<and>
     (drain_type s' = DRAIN_FOR_DESTROY \<and> destroy_posted s' \<longrightarrow> destroy_posted s)"

text \<open>
  What every step inside the I/O task keeps: the trace only grows, by events that satisfy
  \<open>P\<close>; the codec is released exactly when it goes away; the decoder is not deleted, its
  client, codec kind and platform stay; the pending queue and the codec's outstanding
  answers do not grow; the state does not become SURFACE_DESTROYED.
\<close>

definition ext :: "(Event \<Rightarrow> bool) \<Rightarrow> MCVD \<Rightarrow> MCVD \<Rightarrow> bool" where
  "ext P s s' \<longleftrightarrow>
     (\<exists>evs. trace s' = trace s @ evs \<and> list_all P evs \<and>
            count_release evs + present s' = present s) \<and>
     deleted s' = deleted s \<and> platform s' = platform s \<and> client s' = client s \<and>
     codec s' = codec s \<and> is_encrypted s' = is_encrypted s \<and>
     length (pending_bitstream_records s') \<le> length (pending_bitstream_records s) \<and>
     out_len s' \<le> out_len s \<and>
     (state s \<noteq> SURFACE_DESTROYED \<longrightarrow> state s' \<noteq> SURFACE_DESTROYED) \<and>
     drain_ok s s'"

subsection \<open>The timestamp map and concrete outputs\<close>

text \<open>The keys of the std::map are strictly increasing along the list.\<close>

definition sorted_keys :: "(int \<times> int) list \<Rightarrow> bool" where
  "sorted_keys m \<longleftrightarrow> sorted_wrt (<) (map fst m)"

text \<open>Whether SendDecodedFrameToClient reaches NotifyPictureReady: the GL context can be
  made current and the first free picture id names a picture buffer.\<close>

definition can_send_picture :: "MCVD \<Rightarrow> bool" where
  "can_send_picture s \<longleftrightarrow>
     make_context_current_ok (platform s) \<and>
     (case free_picture_ids s of
        [] \<Rightarrow> False
      | pid # rest \<Rightarrow> map_of (output_picture_buffers s) pid \<noteq> None)"

text \<open>DequeueOutput reaches the codec: no error, not waiting for the codec or for a picture
  buffer, no surface switch pending.\<close>

definition output_open :: "MCVD \<Rightarrow> bool" where
  "output_open s \<longleftrightarrow>
     state s \<noteq> ERROR \<and> state s \<noteq> WAITING_FOR_CODEC \<and>
     \<not> (output_picture_buffers s \<noteq> [] \<and> free_picture_ids s = [] \<and>
        \<not> IsDrainingForResetOrDestroy s) \<and>
     pending_surface_id s = None"

text \<open>A decoded frame in output buffer \<open>i\<close> with timestamp \<open>t\<close>, and a steady decoder with
  inputs of timestamps 0 and 10 (ids 7 and 8) inside the codec, one free picture buffer, and
  the codec about to report that frame.\<close>

definition frame_at :: "int \<Rightarrow> int \<Rightarrow> DequeueOutputResult" where
  "frame_at i t = \<lparr>out_status = MEDIA_CODEC_OK, out_index = i, out_timestamp = t, out_eos = False\<rparr>"

definition decoder_with_output :: "DequeueOutputResult \<Rightarrow> MCVD" where
  "decoder_with_output r =
     (steady_decoder (idle_codec\<lparr>dequeue_output_results := [r]\<rparr>))
       \<lparr>bitstream_buffers_in_decoder := [(0, 7), (10, 8)],
        bitstreams_notified_in_advance := [7, 8],
        free_picture_ids := [1],
        output_picture_buffers := [(1, (640, 480))],
        output_size := (640, 480)\<rparr>"




subsection \<open>Waiting for a key\<close>



text \<open>No surface change is pending and the codec has nothing to report: every answer it
  still has for DequeueOutputBuffer is "again later".\<close>

definition output_silent :: "MCVD \<Rightarrow> bool" where
  "output_silent s \<longleftrightarrow>
     pending_surface_id s = None \<and>
     (case media_codec s of
        None \<Rightarrow> False
      | Some c \<Rightarrow>
          list_all (\<lambda>r. out_status r = MEDIA_CODEC_DEQUEUE_OUTPUT_AGAIN_LATER)
            (dequeue_output_results c))"

text \<open>
  What a step of the I/O task other than a submission keeps: the pending queue; the ids
  notified in advance do not grow; and either the state, the held input buffer index and the
  presence of the codec are as before, or the state has become ERROR or WAITING_FOR_CODEC, or
  it is NO_ERROR with no input buffer index held.
\<close>

definition wait_step :: "MCVD \<Rightarrow> MCVD \<Rightarrow> bool" where
  "wait_step t t' \<longleftrightarrow>
     pending_bitstream_records t' = pending_bitstream_records t \<and>
     length (bitstreams_notified_in_advance t') \<le> length (bitstreams_notified_in_advance t) \<and>
     ((state t' = state t \<and> pending_input_buf_index t' = pending_input_buf_index t \<and>
       (media_codec t' = None \<longleftrightarrow> media_codec t = None)) \<or>
      state t' = ERROR \<or> state t' = WAITING_FOR_CODEC \<or>
      (state t' = NO_ERROR \<and> pending_input_buf_index t' = -1))"

text \<open>
  The decoder while the record list \<open>rs\<close> waits for a key with input buffer \<open>i\<close>: in state
  WAITING_FOR_KEY the index \<open>i\<close> is held and there is a codec; in state NO_ERROR no index is
  held.
\<close>

definition key_wait_inv :: "int \<Rightarrow> BitstreamRecord list \<Rightarrow> MCVD \<Rightarrow> bool" where
  "key_wait_inv i rs t \<longleftrightarrow>
     pending_bitstream_records t = rs \<and>
     length (bitstreams_notified_in_advance t) \<le> kMaxBitstreamsNotifiedInAdvance \<and>
     state t \<noteq> SURFACE_DESTROYED \<and>
     (state t = WAITING_FOR_KEY \<longrightarrow> pending_input_buf_index t = i \<and> media_codec t \<noteq> None) \<and>
     (state t = NO_ERROR \<longrightarrow> pending_input_buf_index t = -1)"

subsection \<open>A codec with nothing to do\<close>

text \<open>Every answer the codec still has is "again later", for input buffers and for
  output.\<close>

definition only_try_again :: "VideoCodecBridge \<Rightarrow> bool" where
  "only_try_again c \<longleftrightarrow>
     list_all (\<lambda>r. fst r = MEDIA_CODEC_DEQUEUE_INPUT_AGAIN_LATER) (dequeue_input_results c) \<and>
     list_all (\<lambda>r. out_status r = MEDIA_CODEC_DEQUEUE_OUTPUT_AGAIN_LATER)
       (dequeue_output_results c)"

text \<open>Two decoder states that differ at most in what the codec will answer next, in
  \<open>most_recent_work\<close> and in the trace.\<close>

definition same_decoder_fields :: "MCVD \<Rightarrow> MCVD \<Rightarrow> bool" where
  "same_decoder_fields s s' \<longleftrightarrow>
     s' = s\<lparr>media_codec := media_codec s', most_recent_work := most_recent_work s',
           trace := trace s'\<rparr>"

text \<open>A steady decoder, its codec idle, asked to move to surface 9 on a platform that
  cannot allocate that surface.\<close>

definition switching_decoder :: MCVD where
  "switching_decoder =
     (steady_decoder idle_codec)
       \<lparr>pending_surface_id := Some 9,
        platform := ok_platform\<lparr>allocate_surface_ok := False\<rparr>\<rparr>"

subsection \<open>Errors while draining\<close>




subsection \<open>Destroy\<close>

text \<open>Destroy defers the teardown: there is a codec and it decodes VP8.\<close>

definition destroy_drains :: "MCVD \<Rightarrow> bool" where
  "destroy_drains s \<longleftrightarrow> media_codec s \<noteq> None \<and> codec s = kCodecVP8"


text \<open>A VP8 decoder with one input inside a codec that reports the end of the stream as
  soon as it is asked.\<close>

definition eos_output :: DequeueOutputResult where
  "eos_output = \<lparr>out_status = MEDIA_CODEC_OK, out_index = 0, out_timestamp = 0, out_eos = True\<rparr>"

definition busy_vp8_decoder :: MCVD where
  "busy_vp8_decoder =
     (steady_decoder (idle_codec\<lparr>dequeue_input_results := [(MEDIA_CODEC_OK, 2)],
                                  dequeue_output_results := [eos_output]\<rparr>))
       \<lparr>codec := kCodecVP8, bitstream_buffers_in_decoder := [(0, 7)],
        bitstreams_notified_in_advance := [7]\<rparr>"

text \<open>A VP8 decoder whose codec hands out no input buffer and reports nothing: Flush
  queues the end-of-stream marker, which stays in the pending queue.\<close>

definition idle_vp8_decoder :: MCVD where
  "idle_vp8_decoder = (steady_decoder idle_codec)\<lparr>codec := kCodecVP8\<rparr>"

subsection \<open>Reset\<close>

text \<open>
  The decoder once Reset has cancelled the pending inputs: only end-of-stream markers are
  queued, and either a drain for reset or destroy is in progress or no input is inside the
  codec.
\<close>

definition only_eos :: "BitstreamRecord list \<Rightarrow> bool" where
  "only_eos rs \<longleftrightarrow> list_all (\<lambda>r. buffer_id (buffer r) = -1) rs"

definition cancelled_inv :: "MCVD \<Rightarrow> bool" where
  "cancelled_inv s \<longleftrightarrow>
     state s \<noteq> SURFACE_DESTROYED \<and>
     (IsDrainingForResetOrDestroy s \<or> bitstream_buffers_in_decoder s = []) \<and>
     only_eos (pending_bitstream_records s)"

text \<open>The ids Reset has to give back: those of the pending records that are not
  end-of-stream markers, in queue order.\<close>

definition cancelled_ids :: "BitstreamRecord list \<Rightarrow> int list" where
  "cancelled_ids rs = filter (\<lambda>i. i \<noteq> -1) (map (\<lambda>r. buffer_id (buffer r)) rs)"

text \<open>A VP8 decoder with input 7 inside the codec and the client's buffers 1 and 2 queued
  behind a codec that hands out no input buffer and reports nothing.\<close>

definition queued_vp8_decoder :: MCVD where
  "queued_vp8_decoder =
     (steady_decoder idle_codec)
       \<lparr>codec := kCodecVP8, bitstream_buffers_in_decoder := [(0, 7)],
        bitstreams_notified_in_advance := [7],
        pending_bitstream_records :=
          [mk_BitstreamRecord (plain_buffer 1) mapped_region,
           mk_BitstreamRecord (plain_buffer 2) mapped_region]\<rparr>"

text \<open>
  A low-end device with another decoder registered, and the client of an encrypted H264
  stream that has no surface yet: Initialize defers the surface creation. The client then
  sends a buffer with the invalid id -5 and the buffer 1.
\<close>

definition low_end_platform :: Platform where
  "low_end_platform = ok_platform\<lparr>is_any_registered_avda := True, is_low_end_device := True\<rparr>"

definition encrypted_config :: Config where
  "encrypted_config =
     \<lparr>output_mode = ALLOCATE, cfg_codec = kCodecH264,
      cfg_initial_expected_coded_size = (640, 480), cfg_surface_id = kNoSurfaceID,
      cfg_is_encrypted = True, is_deferred_initialization_allowed = True\<rparr>"

definition invalid_buffer :: BitstreamBuffer where
  "invalid_buffer = \<lparr>buffer_id = -5, buffer_size = 100, presentation_timestamp = 0,
                      key_id = [], iv = []\<rparr>"

definition deferred_decoder :: MCVD where
  "deferred_decoder =
     Decode (plain_buffer 1) mapped_region
       (Decode invalid_buffer mapped_region
          (snd (Initialize encrypted_config (mcvd_init low_end_platform))))"

section \<open>MCVDManager: the shared polling timer\<close>

text \<open>
  std::set<MediaCodecVideoDecoder*>: the instances are numbered, and a set is the list of
  its elements in increasing order, which is the order a range-for visits them in.
\<close>

definition set_insert :: "nat \<Rightarrow> nat list \<Rightarrow> nat list" where
  "set_insert x xs = (if x \<in> set xs then xs else insort x xs)"

definition set_erase :: "nat \<Rightarrow> nat list \<Rightarrow> nat list" where
  "set_erase x xs = removeAll x xs"

record MCVDManager =
  timer_mcvd_instances :: "nat list"
  timer_running :: bool
  pending_erase :: "nat list"
  io_timer_is_running :: bool

text \<open>The manager as constructed: no instance, no timer.\<close>

definition manager_init :: MCVDManager where
  "manager_init = \<lparr>timer_mcvd_instances = [], timer_running = False, pending_erase = [],
                    io_timer_is_running = False\<rparr>"

definition StartTimer :: "nat \<Rightarrow> MCVDManager \<Rightarrow> MCVDManager" where
  "StartTimer mcvd g =
     (let g1 = g\<lparr>timer_mcvd_instances := set_insert mcvd (timer_mcvd_instances g)\<rparr>;
          g2 = (if timer_running g1
                then g1\<lparr>pending_erase := set_erase mcvd (pending_erase g1)\<rparr>
                else g1)
      in if io_timer_is_running g2 then g2 else g2\<lparr>io_timer_is_running := True\<rparr>)"

definition StopTimer :: "nat \<Rightarrow> MCVDManager \<Rightarrow> MCVDManager" where
  "StopTimer mcvd g =
     (if timer_running g
      then g\<lparr>pending_erase := set_insert mcvd (pending_erase g)\<rparr>
      else
        (let g1 = g\<lparr>timer_mcvd_instances := set_erase mcvd (timer_mcvd_instances g)\<rparr>
         in if timer_mcvd_instances g1 = [] then g1\<lparr>io_timer_is_running := False\<rparr> else g1))"

text \<open>
  What an instance's DoIOTask asks of the manager: ManageTimer ends every DoIOTask with
  StartTimer(this) or StopTimer(this), and ResetCodecState may call StopTimer(this) before.
\<close>

datatype TimerCall = CallStartTimer | CallStopTimer

fun apply_call :: "nat \<Rightarrow> TimerCall \<Rightarrow> MCVDManager \<Rightarrow> MCVDManager" where
  "apply_call mcvd CallStartTimer g = StartTimer mcvd g"
| "apply_call mcvd CallStopTimer g = StopTimer mcvd g"

text \<open>
  RunTimer. \<open>io mcvd\<close> lists the manager calls that \<open>mcvd->DoIOTask(false)\<close> makes in this
  tick. \<open>RunTimer_pass io ms g\<close> is the manager inside the block of RunTimer once the
  range-for has visited the instances \<open>ms\<close>: the AutoReset has set \<open>timer_running\<close>, and
  each visited instance has made its calls. \<open>RunTimer_during\<close> is the manager in the middle
  of the next visit, after the first calls \<open>cs\<close> of instance \<open>mcvd\<close>. RunTimer is the whole
  pass, after which the AutoReset puts \<open>timer_running\<close> back to its old value and the
  deferred erasures are carried out.
\<close>

definition RunTimer_pass ::
  "(nat \<Rightarrow> TimerCall list) \<Rightarrow> nat list \<Rightarrow> MCVDManager \<Rightarrow> MCVDManager" where
  "RunTimer_pass io ms g =
     fold (\<lambda>mcvd. fold (apply_call mcvd) (io mcvd)) ms (g\<lparr>timer_running := True\<rparr>)"

definition RunTimer_during ::
  "(nat \<Rightarrow> TimerCall list) \<Rightarrow> nat list \<Rightarrow> nat \<Rightarrow> TimerCall list \<Rightarrow> MCVDManager
     \<Rightarrow> MCVDManager" where
  "RunTimer_during io ms mcvd cs g = fold (apply_call mcvd) cs (RunTimer_pass io ms g)"

definition RunTimer :: "(nat \<Rightarrow> TimerCall list) \<Rightarrow> MCVDManager \<Rightarrow> MCVDManager" where
  "RunTimer io g =
     (let old = timer_running g;
          g2 = RunTimer_pass io (timer_mcvd_instances g) g;
          g3 = g2\<lparr>timer_running := old\<rparr>;
          g4 = fold StopTimer (pending_erase g3) g3
      in g4\<lparr>pending_erase := []\<rparr>)"

text \<open>The requests the manager serves, and a run of them from the initial manager.\<close>

datatype ManagerOp = Register nat | Unregister nat | Tick "nat \<Rightarrow> TimerCall list"

fun manager_step :: "ManagerOp \<Rightarrow> MCVDManager \<Rightarrow> MCVDManager" where
  "manager_step (Register m) g = StartTimer m g"
| "manager_step (Unregister m) g = StopTimer m g"
| "manager_step (Tick io) g = RunTimer io g"

definition manager_run :: "ManagerOp list \<Rightarrow> MCVDManager" where
  "manager_run ops = fold manager_step ops manager_init"

text \<open>The manager between two ticks: the repeating timer runs exactly when an instance is
  registered.\<close>

definition timer_inv :: "MCVDManager \<Rightarrow> bool" where
  "timer_inv g \<longleftrightarrow> \<not> timer_running g \<and>
     (io_timer_is_running g \<longleftrightarrow> timer_mcvd_instances g \<noteq> [])"

text \<open>The pending erasures after the calls \<open>cs\<close> of instance \<open>m\<close> during a tick.\<close>

definition pend_after :: "TimerCall list \<Rightarrow> nat \<Rightarrow> nat set \<Rightarrow> nat set" where
  "pend_after cs m P =
     (if cs = [] then P else if last cs = CallStopTimer then insert m P else P - {m})"

text \<open>An instance whose last request in a tick was StopTimer.\<close>

definition stopped :: "(nat \<Rightarrow> TimerCall list) \<Rightarrow> nat \<Rightarrow> bool" where
  "stopped io m \<longleftrightarrow> io m \<noteq> [] \<and> last (io m) = CallStopTimer"

section \<open>What the steps of the I/O task keep\<close>

text \<open>QueueInput leaves the codec's outstanding output alone and never lengthens the
  pending queue; when it returns true the queue is shorter.\<close>

lemma out_len_emit [simp]: "out_len (emit e s) = out_len s"
  by (simp add: out_len_def emit_def)
lemma pend_emit [simp]: "pending_bitstream_records (emit e s) = pending_bitstream_records s"
  by (simp add: emit_def)
lemma out_len_NotifyError [simp]: "out_len (NotifyError e s) = out_len s"
  by (simp add: out_len_def NotifyError_def emit_def Let_def)
lemma pend_NotifyError [simp]: "pending_bitstream_records (NotifyError e s) = pending_bitstream_records s"
  by (simp add: NotifyError_def emit_def Let_def)

lemma QueueInput_submit_measure:
  assumes "QueueInput_submit i c s = (b, s')" "media_codec s \<noteq> None" "pending_bitstream_records s \<noteq> []"
    "out_len s = length (dequeue_output_results c)" 
  shows "out_len s' = out_len s \<and> length (pending_bitstream_records s') \<le> length (pending_bitstream_records s)
     \<and> (b \<longrightarrow> length (pending_bitstream_records s') < length (pending_bitstream_records s))"
  using assms
  by (auto simp: QueueInput_submit_def Let_def out_len_def pop_queue_input_def emit_def NotifyError_def split: if_splits)

lemma QueueInput_measure:
  assumes "QueueInput s = (b, s')"
  shows "out_len s' = out_len s \<and> length (pending_bitstream_records s') \<le> length (pending_bitstream_records s)
     \<and> (b \<longrightarrow> length (pending_bitstream_records s') < length (pending_bitstream_records s))"
proof (cases "state s = ERROR \<or> state s = WAITING_FOR_CODEC \<or> state s = WAITING_FOR_KEY \<or>
     length (bitstreams_notified_in_advance s) > kMaxBitstreamsNotifiedInAdvance \<or> pending_bitstream_records s = []")
  case True
  then show ?thesis using assms by (auto simp: QueueInput_def split: if_splits)
next
  case False
  show ?thesis
  proof (cases "media_codec s")
    case None
    then show ?thesis using assms False by (auto simp: QueueInput_def out_len_def)
  next
    case (Some c)
    show ?thesis
    proof (cases "pending_input_buf_index s = -1")
      case True
      obtain st ix where n: "next_dequeue_input c = (st, ix)" by (cases "next_dequeue_input c")
      let ?s1 = "s\<lparr>media_codec := Some (pop_dequeue_input c)\<rparr>"
      have o: "out_len ?s1 = out_len s" "out_len ?s1 = length (dequeue_output_results (pop_dequeue_input c))"
        using Some by (simp_all add: out_len_def pop_dequeue_input_def)
      show ?thesis
      proof (cases "st = MEDIA_CODEC_OK")
        case True
        then have "QueueInput_submit ix (pop_dequeue_input c) ?s1 = (b, s')"
          using assms False Some \<open>pending_input_buf_index s = -1\<close> n by (simp add: QueueInput_def Let_def)
        from QueueInput_submit_measure [OF this] False o show ?thesis by simp
      next
        case F: False
        then show ?thesis using assms False Some True n o
          by (cases st) (auto simp: QueueInput_def Let_def)
      qed
    next
      case F: False
      then have "QueueInput_submit (pending_input_buf_index s) c s = (b, s')"
        using assms False Some by (simp add: QueueInput_def Let_def)
      from QueueInput_submit_measure [OF this] False Some show ?thesis by (simp add: out_len_def)
    qed
  qed
qed

text \<open>The relation \<open>ext\<close>: introduction and elimination, reflexivity, transitivity, and
  the rules that carry it through one more event or field update.\<close>

lemma extI:
  assumes "trace s' = trace s @ evs" "list_all P evs" "count_release evs + present s' = present s"
    "deleted s' = deleted s" "platform s' = platform s" "client s' = client s"
    "codec s' = codec s" "is_encrypted s' = is_encrypted s"
    "length (pending_bitstream_records s') \<le> length (pending_bitstream_records s)"
    "out_len s' \<le> out_len s"
    "state s \<noteq> SURFACE_DESTROYED \<longrightarrow> state s' \<noteq> SURFACE_DESTROYED"
    "drain_ok s s'"
  shows "ext P s s'"
  unfolding ext_def using assms by blast

lemma extE:
  assumes "ext P s s'"
  obtains evs where "trace s' = trace s @ evs" "list_all P evs" "count_release evs + present s' = present s"
    "deleted s' = deleted s" "platform s' = platform s" "client s' = client s"
    "codec s' = codec s" "is_encrypted s' = is_encrypted s"
    "length (pending_bitstream_records s') \<le> length (pending_bitstream_records s)"
    "out_len s' \<le> out_len s"
    "state s \<noteq> SURFACE_DESTROYED \<longrightarrow> state s' \<noteq> SURFACE_DESTROYED"
    "drain_ok s s'"
  using assms unfolding ext_def by blast

lemma ext_refl [simp]: "ext P s s"
  by (rule extI [where evs = "[]"]) (simp_all add: count_release_def drain_ok_def)

lemma drain_ok_trans:
  assumes "drain_ok s t" "drain_ok t u" "trace u = trace t @ e2"
  shows "drain_ok s u"
  using assms unfolding drain_ok_def destroy_posted_def by auto

lemma ext_trans:
  assumes "ext P s t" "ext P t u"
  shows "ext P s u"
proof -
  from assms(1) obtain e1 where a: "trace t = trace s @ e1" "list_all P e1" "count_release e1 + present t = present s"
    "deleted t = deleted s" "platform t = platform s" "client t = client s"
    "codec t = codec s" "is_encrypted t = is_encrypted s"
    "length (pending_bitstream_records t) \<le> length (pending_bitstream_records s)"
    "out_len t \<le> out_len s"
    "state s \<noteq> SURFACE_DESTROYED \<longrightarrow> state t \<noteq> SURFACE_DESTROYED"
    "drain_ok s t" by (rule extE)
  from assms(2) obtain e2 where b: "trace u = trace t @ e2" "list_all P e2" "count_release e2 + present u = present t"
    "deleted u = deleted t" "platform u = platform t" "client u = client t"
    "codec u = codec t" "is_encrypted u = is_encrypted t"
    "length (pending_bitstream_records u) \<le> length (pending_bitstream_records t)"
    "out_len u \<le> out_len t"
    "state t \<noteq> SURFACE_DESTROYED \<longrightarrow> state u \<noteq> SURFACE_DESTROYED"
    "drain_ok t u" by (rule extE)
  have n: "trace u = trace s @ (e1 @ e2)" using a(1) b(1) by simp
  have c: "count_release (e1 @ e2) + present u = present s"
    using a(3) b(3) by (simp add: count_release_def)
  have d: "drain_ok s u" using a(12) b(12) b(1) by (rule drain_ok_trans)
  show ?thesis
    by (rule extI [OF n _ c]) (use a b d in simp_all)
qed

lemma ext_mono: "ext P s t \<Longrightarrow> (\<And>e. P e \<Longrightarrow> Q e) \<Longrightarrow> ext Q s t"
  unfolding ext_def list_all_iff by blast

lemma ext_emit:
  assumes "ext P s t" "P e" "e \<noteq> ReleaseMediaCodec" "e \<noteq> PostTask ActualDestroyTask"
  shows "ext P s (emit e t)"
proof -
  have "ext P t (emit e t)"
    by (rule extI [where evs = "[e]"])
      (use assms(2,3,4) in \<open>simp_all add: emit_def count_release_def present_def out_len_def
          drain_ok_def destroy_posted_def\<close>)
  with assms(1) show ?thesis by (rule ext_trans)
qed


lemma ext_same:
  assumes "ext P s t" "trace t' = trace t" "media_codec t' = media_codec t"
    "deleted t' = deleted t" "platform t' = platform t" "client t' = client t"
    "codec t' = codec t" "is_encrypted t' = is_encrypted t"
    "length (pending_bitstream_records t') \<le> length (pending_bitstream_records t)"
    "state t \<noteq> SURFACE_DESTROYED \<longrightarrow> state t' \<noteq> SURFACE_DESTROYED"
    "drain_type t' = drain_type t"
  shows "ext P s t'"
proof -
  have "ext P t t'"
    by (rule extI [where evs = "[]"])
      (use assms(2-) in \<open>simp_all add: count_release_def present_def out_len_def drain_ok_def
          destroy_posted_def\<close>)
  with assms(1) show ?thesis by (rule ext_trans)
qed

lemma ext_update:
  assumes "ext P s t"
  shows
    "ext P s (pending_surface_id_update g1 t)"
    "ext P s (surface_id_update g2 t)"
    "ext P s (bitstream_buffers_in_decoder_update g3 t)"
    "ext P s (bitstreams_notified_in_advance_update g4 t)"
    "ext P s (free_picture_ids_update g5 t)"
    "ext P s (output_picture_buffers_update g6 t)"
    "ext P s (output_size_update g7 t)"
    "ext P s (pending_input_buf_index_update g8 t)"
    "ext P s (deferred_initialization_pending_update g9 t)"
    "ext P s (codec_needs_reset_update g10 t)"
    "ext P s (defer_surface_creation_update g11 t)"
    "ext P s (most_recent_work_update g12 t)"
    "ext P s (task_type_update g13 t)"
    "ext P s (fault_update g14 t)"
    "ext P s (initial_expected_coded_size_update g15 t)"
    "g (state t) \<noteq> SURFACE_DESTROYED \<Longrightarrow> ext P s (state_update g t)"
    "length (h (pending_bitstream_records t)) \<le> length (pending_bitstream_records t) \<Longrightarrow> ext P s (pending_bitstream_records_update h t)"
  by (rule ext_same [OF assms]; simp)+

lemma ext_codec_script:
  assumes "ext P s t" "media_codec t = Some c"
    "length (dequeue_output_results c') \<le> length (dequeue_output_results c)"
  shows "ext P s (t\<lparr>media_codec := Some c'\<rparr>)"
proof -
  have "ext P t (t\<lparr>media_codec := Some c'\<rparr>)"
    by (rule extI [where evs = "[]"])
      (use assms(2-) in \<open>simp_all add: count_release_def present_def out_len_def drain_ok_def
          destroy_posted_def\<close>)
  with assms(1) show ?thesis by (rule ext_trans)
qed

lemma ext_release:
  assumes "ext P s t" "media_codec t \<noteq> None" "P ReleaseMediaCodec"
  shows "ext P s ((emit ReleaseMediaCodec t)\<lparr>media_codec := None\<rparr>)"
proof -
  have "ext P t ((emit ReleaseMediaCodec t)\<lparr>media_codec := None\<rparr>)"
    by (rule extI [where evs = "[ReleaseMediaCodec]"])
      (use assms(2-) in \<open>simp_all add: emit_def count_release_def present_def out_len_def
          drain_ok_def destroy_posted_def\<close>)
  with assms(1) show ?thesis by (rule ext_trans)
qed

lemma ext_NotifyError:
  assumes "ext P s t" "P (ClientNotifyError err)"
  shows "ext P s (NotifyError err t)"
  unfolding NotifyError_def Let_def
  by (auto intro!: ext_emit ext_update assms)

lemma ext_ManageTimer:
  assumes "ext P s t" "P ManagerStartTimer" "P ManagerStopTimer"
  shows "ext P s (ManageTimer b t)"
  unfolding ManageTimer_def Let_def
  by (auto intro!: ext_emit ext_update assms)

lemma emit_fields [simp]:
  "media_codec (emit e s) = media_codec s" "state (emit e s) = state s"
  "drain_type (emit e s) = drain_type s" "client (emit e s) = client s"
  "platform (emit e s) = platform s" "codec (emit e s) = codec s"
  "is_encrypted (emit e s) = is_encrypted s" "deleted (emit e s) = deleted s"
  "pending_bitstream_records (emit e s) = pending_bitstream_records s"
  "bitstream_buffers_in_decoder (emit e s) = bitstream_buffers_in_decoder s"
  "bitstreams_notified_in_advance (emit e s) = bitstreams_notified_in_advance s"
  "pending_input_buf_index (emit e s) = pending_input_buf_index s"
  "pending_surface_id (emit e s) = pending_surface_id s"
  "surface_id (emit e s) = surface_id s"
  "free_picture_ids (emit e s) = free_picture_ids s"
  "output_picture_buffers (emit e s) = output_picture_buffers s"
  "output_size (emit e s) = output_size s"
  "deferred_initialization_pending (emit e s) = deferred_initialization_pending s"
  "codec_needs_reset (emit e s) = codec_needs_reset s"
  "defer_surface_creation (emit e s) = defer_surface_creation s"
  "most_recent_work (emit e s) = most_recent_work s"
  "task_type (emit e s) = task_type s" "fault (emit e s) = fault s"
  "trace (emit e s) = trace s @ [e]"
  by (simp_all add: emit_def)

lemma ext_drain_none:
  assumes "ext P s t" "drain_type t \<noteq> DRAIN_FOR_DESTROY"
  shows "ext P s (t\<lparr>drain_type := DRAIN_TYPE_NONE\<rparr>)"
proof -
  have "ext P t (t\<lparr>drain_type := DRAIN_TYPE_NONE\<rparr>)"
    by (rule extI [where evs = "[]"])
      (use assms(2) in \<open>simp_all add: count_release_def present_def out_len_def drain_ok_def
          destroy_posted_def\<close>)
  with assms(1) show ?thesis by (rule ext_trans)
qed

lemma ext_post_drain_none:
  assumes "ext P s t" "P (PostTask task)"
    "drain_type t = DRAIN_FOR_DESTROY \<longrightarrow> task = ActualDestroyTask"
  shows "ext P s ((emit (PostTask task) t)\<lparr>drain_type := DRAIN_TYPE_NONE\<rparr>)"
proof -
  have "ext P t ((emit (PostTask task) t)\<lparr>drain_type := DRAIN_TYPE_NONE\<rparr>)"
    by (rule extI [where evs = "[PostTask task]"])
      (use assms(2,3) in \<open>simp_all add: emit_def count_release_def present_def out_len_def
          drain_ok_def destroy_posted_def\<close>)
  with assms(1) show ?thesis by (rule ext_trans)
qed

lemma ext_OnCodecConfigured_None:
  assumes "ext P s t" "media_codec t = None" "\<And>e. quiet e \<Longrightarrow> P e"
  shows "ext P s (OnCodecConfigured None t)"
proof -
  have n: "ext P s (u\<lparr>media_codec := None\<rparr>)" if "ext P s u" "media_codec u = None" for u
    using that by (auto intro: ext_same)
  show ?thesis
    unfolding OnCodecConfigured_def Let_def
    by (auto intro!: ext_emit ext_update ext_NotifyError n assms)
qed

lemma ext_if: "ext P s a \<Longrightarrow> ext P s b \<Longrightarrow> ext P s (if c then a else b)"
  by simp

lemma ext_Configure:
  assumes "ext P s t" "\<And>e. quiet e \<Longrightarrow> P e"
  shows "ext P s (ConfigureMediaCodecAsynchronously t)"
proof -
  define s2 where "s2 = (if media_codec (t\<lparr>state := WAITING_FOR_CODEC\<rparr>) \<noteq> None
                then emit (PbmCodecChanged False)
                  ((emit ReleaseMediaCodec (t\<lparr>state := WAITING_FOR_CODEC\<rparr>))\<lparr>media_codec := None\<rparr>)
                else t\<lparr>state := WAITING_FOR_CODEC\<rparr>)"
  define s3 where "s3 = s2\<lparr>task_type := task_type_for_allocation (platform s2)\<rparr>"
  have e2: "ext P s s2" unfolding s2_def
    by (auto intro!: ext_emit ext_release ext_update assms)
  have e3: "ext P s s3" unfolding s3_def using e2 by (intro ext_update)
  have n: "media_codec s3 = None" by (simp add: s3_def s2_def)
  have eq: "ConfigureMediaCodecAsynchronously t =
      (if task_type s3 = FAILED_CODEC then OnCodecConfigured None s3
         else if task_type s3 = SW_CODEC \<and> IsMediaCodecSoftwareDecodingForbidden s3
         then OnCodecConfigured None s3
         else emit CreateMediaCodecAsync s3)"
    unfolding ConfigureMediaCodecAsynchronously_def Let_def s3_def s2_def ..
  show ?thesis unfolding eq
    by (intro ext_if ext_OnCodecConfigured_None [OF e3 n assms(2)] ext_emit [OF e3]) (simp_all add: assms(2))
qed

lemma ext_ResetCodecState:
  assumes "ext P s t" "\<And>e. quiet e \<Longrightarrow> P e"
  shows "ext P s (ResetCodecState t)"
proof -
  define s2 where "s2 = (if pending_input_buf_index (t\<lparr>bitstream_buffers_in_decoder := []\<rparr>) \<noteq> -1
        then t\<lparr>bitstream_buffers_in_decoder := [], pending_input_buf_index := -1\<rparr>
        else t\<lparr>bitstream_buffers_in_decoder := []\<rparr>)"
  define s3 where "s3 = s2\<lparr>state := NO_ERROR, codec_needs_reset := False\<rparr>"
  have e3: "ext P s s3" unfolding s3_def s2_def
    by (auto intro!: ext_update assms)
  have c: "ext P s (ConfigureMediaCodecAsynchronously (emit ManagerStopTimer s3))"
    by (intro ext_Configure ext_emit e3 assms(2)) (simp_all add: assms(2))
  have eq: "ResetCodecState t =
     (if state t = WAITING_FOR_CODEC \<or> state t = SURFACE_DESTROYED then t
      else if drain_type s3 = DRAIN_FOR_FLUSH \<and> \<not> state s2 = ERROR
            then s3\<lparr>codec_needs_reset := True\<rparr>
            else if state s2 = ERROR
            then ConfigureMediaCodecAsynchronously (emit ManagerStopTimer s3)
            else (case media_codec s3 of
                    None \<Rightarrow>
                      if \<not> flush_workaround_without_codec (platform s3)
                      then s3\<lparr>fault := True\<rparr>
                      else ConfigureMediaCodecAsynchronously (emit ManagerStopTimer s3)
                  | Some c \<Rightarrow>
                      if \<not> needs_flush_workaround c
                      then emit (PbmCodecChanged True) (emit CodecFlush s3)
                      else ConfigureMediaCodecAsynchronously (emit ManagerStopTimer s3)))"
    unfolding ResetCodecState_def Let_def s3_def s2_def ..
  show ?thesis unfolding eq
    by (cases "media_codec s3")
      (auto intro!: ext_if ext_update ext_emit e3 c assms simp del: not_None_eq)
qed

lemma drain_type_helpers [simp]:
  "drain_type (NotifyError err s) = drain_type s"
  "drain_type (ManageTimer b s) = drain_type s"
  "drain_type (OnCodecConfigured c s) = drain_type s"
  by (simp_all add: NotifyError_def ManageTimer_def OnCodecConfigured_def Let_def)

lemma drain_type_Configure [simp]:
  "drain_type (ConfigureMediaCodecAsynchronously s) = drain_type s"
  by (simp add: ConfigureMediaCodecAsynchronously_def Let_def)

lemma drain_type_ResetCodecState [simp]:
  "drain_type (ResetCodecState s) = drain_type s"
  by (simp add: ResetCodecState_def Let_def split: option.splits)

lemma ext_OnDrainCompleted:
  assumes "ext P s t" "\<And>e. quiet e \<Longrightarrow> P e"
  shows "ext P s (OnDrainCompleted t)"
proof -
  have r: "ext P s (ResetCodecState u)" if "ext P s u" for u
    using that assms(2) by (rule ext_ResetCodecState)
  have p: "P (PostTask NotifyFlushDone)" "P (PostTask NotifyResetDone)"
    "P (PostTask ActualDestroyTask)" by (rule assms(2); simp)+
  show ?thesis
  proof (cases "drain_type t")
    case DRAIN_TYPE_NONE
    have "ext P s (ResetCodecState (t\<lparr>state := ERROR\<rparr>))"
      by (intro r ext_update assms(1)) simp
    then show ?thesis using DRAIN_TYPE_NONE
      by (simp add: OnDrainCompleted_def ext_drain_none)
  next
    case DRAIN_FOR_FLUSH
    then show ?thesis
      by (simp add: OnDrainCompleted_def ext_post_drain_none [OF r [OF assms(1)] p(1)])
  next
    case DRAIN_FOR_RESET
    then show ?thesis
      by (simp add: OnDrainCompleted_def ext_post_drain_none [OF r [OF assms(1)] p(2)])
  next
    case DRAIN_FOR_DESTROY
    then show ?thesis
      by (simp add: OnDrainCompleted_def ext_post_drain_none [OF r [OF assms(1)] p(3)])
  qed
qed

lemma ext_release_after_failed_switch:
  assumes "ext P s t" "\<And>e. quiet e \<Longrightarrow> P e"
  shows "ext P s (release_codec_after_failed_switch t)"
  unfolding release_codec_after_failed_switch_def
  by (auto intro!: ext_emit ext_release assms)

lemma NotifyError_fields [simp]:
  "media_codec (NotifyError err s) = media_codec s"
  "platform (NotifyError err s) = platform s"
  "pending_bitstream_records (NotifyError err s) = pending_bitstream_records s"
  "bitstream_buffers_in_decoder (NotifyError err s) = bitstream_buffers_in_decoder s"
  "bitstreams_notified_in_advance (NotifyError err s) = bitstreams_notified_in_advance s"
  "free_picture_ids (NotifyError err s) = free_picture_ids s"
  "output_picture_buffers (NotifyError err s) = output_picture_buffers s"
  "pending_input_buf_index (NotifyError err s) = pending_input_buf_index s"
  "pending_surface_id (NotifyError err s) = pending_surface_id s"
  "surface_id (NotifyError err s) = surface_id s"
  "client (NotifyError err s) = client s"
  "deleted (NotifyError err s) = deleted s"
  "state (NotifyError err s) = ERROR"
  "trace (NotifyError err s) = trace s @ (if client s then [ClientNotifyError err] else [])"
  by (simp_all add: NotifyError_def Let_def)

lemma ext_switch_surface:
  assumes "ext P s t" "\<And>e. quiet e \<Longrightarrow> P e" "switch_surface n t = (b, t')"
  shows "ext P s t'"
  using assms(3) unfolding switch_surface_def Let_def
  by (auto intro!: ext_emit ext_NotifyError assms(1,2) split: if_splits option.splits)

lemma ext_UpdateSurface:
  assumes "ext P s t" "\<And>e. quiet e \<Longrightarrow> P e" "UpdateSurface t = (b, t')"
  shows "ext P s t'"
proof (cases "pending_surface_id t")
  case None
  then show ?thesis using assms(3) by (auto simp: UpdateSurface_def intro!: ext_update assms)
next
  case (Some n)
  obtain ok s5 where sw: "switch_surface n (t\<lparr>pending_surface_id := None\<rparr>) = (ok, s5)"
    by (cases "switch_surface n (t\<lparr>pending_surface_id := None\<rparr>)")
  have e5: "ext P s s5"
    by (rule ext_switch_surface [OF _ assms(2) sw]) (intro ext_update assms)
  have "t' = emit (DeallocateSurface (surface_id t))
          (if ok then s5\<lparr>surface_id := n\<rparr>
           else emit (DeallocateSurface n) (release_codec_after_failed_switch s5))"
    using assms(3) by (auto simp: UpdateSurface_def Let_def Some sw)
  then show ?thesis
    by (auto intro!: ext_emit ext_update ext_release_after_failed_switch e5 assms(2))
qed

lemma ext_Send:
  assumes "ext P s t" "\<And>e. quiet e \<Longrightarrow> P e" "\<And>p. P (CallNotifyPictureReady p)"
  shows "ext P s (SendDecodedFrameToClient i b t)"
  unfolding SendDecodedFrameToClient_def Let_def
  by (auto intro!: ext_emit ext_update ext_NotifyError assms split: list.splits option.splits)

lemma set_output_results_Some:
  "media_codec t = Some c \<Longrightarrow>
   set_output_results rs t = t\<lparr>media_codec := Some (c\<lparr>dequeue_output_results := rs\<rparr>)\<rparr>"
  by (simp add: set_output_results_def)

lemma set_output_results_twice [simp]:
  "set_output_results rs' (set_output_results rs t) = set_output_results rs' t"
  by (cases "media_codec t") (simp_all add: set_output_results_def)

lemma set_output_results_fields [simp]:
  "state (set_output_results rs t) = state t"
  "drain_type (set_output_results rs t) = drain_type t"
  "trace (set_output_results rs t) = trace t"
  "pending_bitstream_records (set_output_results rs t) = pending_bitstream_records t"
  "bitstream_buffers_in_decoder (set_output_results rs t) = bitstream_buffers_in_decoder t"
  "bitstreams_notified_in_advance (set_output_results rs t) = bitstreams_notified_in_advance t"
  "platform (set_output_results rs t) = platform t"
  "client (set_output_results rs t) = client t"
  "free_picture_ids (set_output_results rs t) = free_picture_ids t"
  "output_picture_buffers (set_output_results rs t) = output_picture_buffers t"
  "pending_input_buf_index (set_output_results rs t) = pending_input_buf_index t"
  "deleted (set_output_results rs t) = deleted t"
  "media_codec (set_output_results rs t) = None \<longleftrightarrow> media_codec t = None"
  by (simp_all add: set_output_results_def)

lemma out_len_set_output_results:
  "media_codec t \<noteq> None \<Longrightarrow> out_len (set_output_results rs t) = length rs"
  by (auto simp: out_len_def set_output_results_def)

lemma ext_set_output_results:
  assumes "ext P s t" "media_codec t = Some c" "length rs \<le> length (dequeue_output_results c)"
  shows "ext P s (set_output_results rs t)"
  unfolding set_output_results_Some [OF assms(2)]
  by (rule ext_codec_script [OF assms(1,2)]) (simp add: assms(3))

lemma IsDraining_set_output_results [simp]:
  "IsDrainingForResetOrDestroy (set_output_results rs t) = IsDrainingForResetOrDestroy t"
  by (simp add: IsDrainingForResetOrDestroy_def)

lemma DequeueOutput_loop_ext:
  assumes "ext P s t" "\<And>e. quiet e \<Longrightarrow> P e" "media_codec t = Some c" "dequeue_output_results c = rs"
  shows "case DequeueOutput_loop rs t of
           Inl (b, t') \<Rightarrow> ext P s t' \<and> (b \<longrightarrow> out_len t' < length rs)
         | Inr (r, t') \<Rightarrow> (\<exists>rs'. t' = set_output_results rs' t \<and> length rs' < length rs)"
  using assms(1,3,4)
proof (induction rs arbitrary: t c)
  case Nil
  then show ?case by simp
next
  case (Cons r rs)
  define s1 where "s1 = set_output_results rs t"
  have e1: "ext P s s1" unfolding s1_def
    by (rule ext_set_output_results [OF Cons.prems(1,2)]) (simp add: Cons.prems(3))
  obtain c1 where c1: "media_codec s1 = Some c1" "dequeue_output_results c1 = rs"
    using Cons.prems(2) by (simp add: s1_def set_output_results_def)
  have o1: "out_len s1 = length rs" using c1 by (simp add: out_len_def)
  note IH = Cons.IH [OF e1 c1]
  have le: "out_len u \<le> length rs" if "ext P s1 u" for u
    using that o1 by (auto elim!: extE)
  have rec: "case DequeueOutput_loop rs s1 of
           Inl (b, t') \<Rightarrow> ext P s t' \<and> (b \<longrightarrow> out_len t' < length (r # rs))
         | Inr (r', t') \<Rightarrow> (\<exists>rs'. t' = set_output_results rs' t \<and> length rs' < length (r # rs))"
    using IH by (auto simp: s1_def split: sum.splits)
  have err: "ext P s (OnDrainCompleted (s1\<lparr>state := ERROR\<rparr>))"
    by (intro ext_OnDrainCompleted ext_update e1 assms(2)) simp
  have ne: "ext P s (NotifyError PLATFORM_FAILURE s1)"
    by (intro ext_NotifyError e1 assms(2)) simp
  have sz: "ext P s (s1\<lparr>output_size := z\<rparr>)" for z by (intro ext_update e1)
  have ft: "ext P s (s1\<lparr>fault := True\<rparr>)" by (intro ext_update e1)
  have osz: "out_len (s1\<lparr>output_size := z\<rparr>) = length rs" for z using o1 by (simp add: out_len_def)
  have other: "(if out_index r < 0 then DequeueOutput_loop rs s1 else Inr (r, s1)) = X \<Longrightarrow>
     (case X of
           Inl (b, t') \<Rightarrow> ext P s t' \<and> (b \<longrightarrow> out_len t' < length (r # rs))
         | Inr (r', t') \<Rightarrow> (\<exists>rs'. t' = set_output_results rs' t \<and> length rs' < length (r # rs)))" for X
    using rec by (auto simp: s1_def split: if_splits)
  show ?case
    apply (simp only: DequeueOutput_loop.simps Let_def s1_def [symmetric])
    apply (cases "out_status r")
    using err ne sz ft e1 o1 osz other c1
    by (auto split: option.splits simp del: DequeueOutput_loop.simps)
qed

lemma release_after_failed_switch_fields [simp]:
  "drain_type (release_codec_after_failed_switch s) = drain_type s"
  "state (release_codec_after_failed_switch s) = state s"
  "bitstream_buffers_in_decoder (release_codec_after_failed_switch s) = bitstream_buffers_in_decoder s"
  "pending_bitstream_records (release_codec_after_failed_switch s) = pending_bitstream_records s"
  "bitstreams_notified_in_advance (release_codec_after_failed_switch s) = bitstreams_notified_in_advance s"
  "pending_input_buf_index (release_codec_after_failed_switch s) = pending_input_buf_index s"
  by (simp_all add: release_codec_after_failed_switch_def)

lemma switch_surface_fields:
  assumes "switch_surface n t = (b, t')"
  shows "drain_type t' = drain_type t"
    "bitstream_buffers_in_decoder t' = bitstream_buffers_in_decoder t"
    "pending_bitstream_records t' = pending_bitstream_records t"
    "bitstreams_notified_in_advance t' = bitstreams_notified_in_advance t"
    "pending_input_buf_index t' = pending_input_buf_index t"
    "b \<Longrightarrow> state t' = state t" "\<not> b \<Longrightarrow> state t' = ERROR"
  using assms unfolding switch_surface_def Let_def
  by (auto split: if_splits option.splits)

lemma UpdateSurface_fields:
  assumes "UpdateSurface t = (b, t')"
  shows "drain_type t' = drain_type t"
    "bitstream_buffers_in_decoder t' = bitstream_buffers_in_decoder t"
    "pending_bitstream_records t' = pending_bitstream_records t"
    "bitstreams_notified_in_advance t' = bitstreams_notified_in_advance t"
    "pending_input_buf_index t' = pending_input_buf_index t"
    "b \<Longrightarrow> state t' = state t"
proof -
  show "drain_type t' = drain_type t"
    "bitstream_buffers_in_decoder t' = bitstream_buffers_in_decoder t"
    "pending_bitstream_records t' = pending_bitstream_records t"
    "bitstreams_notified_in_advance t' = bitstreams_notified_in_advance t"
    "pending_input_buf_index t' = pending_input_buf_index t"
    "b \<Longrightarrow> state t' = state t"
    using assms unfolding UpdateSurface_def Let_def
    by (auto split: option.splits prod.splits if_splits dest: switch_surface_fields)
qed

lemma ext_deliver:
  assumes "ext P s t" "\<And>e. quiet e \<Longrightarrow> P e"
    "IsDrainingForResetOrDestroy t \<or> bitstream_buffers_in_decoder t = [] \<or>
       (\<forall>p. P (CallNotifyPictureReady p))"
    "DequeueOutput_deliver r t = (b, t')"
  shows "ext P s t'"
proof -
  have s: "ext P s (SendDecodedFrameToClient i x (t\<lparr>bitstream_buffers_in_decoder := m\<rparr>))"
    if "\<forall>p. P (CallNotifyPictureReady p)" for i x m
    by (rule ext_Send [OF _ assms(2)]) (use that in \<open>auto intro!: ext_update assms(1)\<close>)
  show ?thesis
    using assms(3,4) unfolding DequeueOutput_deliver_def Let_def
    by (auto intro!: ext_OnDrainCompleted [OF _ assms(2)] ext_emit ext_update s assms(1)
        simp: assms(2) split: if_splits option.splits)
qed

lemma ext_DequeueOutput:
  assumes "ext P s t" "\<And>e. quiet e \<Longrightarrow> P e"
    "IsDrainingForResetOrDestroy t \<or> bitstream_buffers_in_decoder t = [] \<or>
       (\<forall>p. P (CallNotifyPictureReady p))"
    "DequeueOutput t = (b, t')"
  shows "ext P s t' \<and> (b \<longrightarrow> out_len t' < out_len t)"
proof -
  consider (stop) "b = False" "t' = t"
    | (upd) s1 where "UpdateSurface t = (False, s1)" "b = False" "t' = s1"
    | (go) s1 where "s1 = t \<or> UpdateSurface t = (True, s1)"
        "state t \<noteq> ERROR" "state t \<noteq> WAITING_FOR_CODEC"
        "(case media_codec s1 of
                 None \<Rightarrow> (False, s1\<lparr>fault := True\<rparr>)
               | Some c \<Rightarrow>
                   (case DequeueOutput_loop (dequeue_output_results c) s1 of
                      Inl res \<Rightarrow> res
                    | Inr (r, s2) \<Rightarrow> DequeueOutput_deliver r s2)) = (b, t')"
  proof (cases "state t = ERROR \<or> state t = WAITING_FOR_CODEC \<or>
      (output_picture_buffers t \<noteq> [] \<and> free_picture_ids t = [] \<and> \<not> IsDrainingForResetOrDestroy t) \<or>
      (pending_surface_id t \<noteq> None \<and> has_unrendered_pictures (platform t))")
    case True
    then have "b = False" "t' = t" using assms(4) unfolding DequeueOutput_def by (auto split: if_splits)
    then show ?thesis by (rule stop)
  next
    case False
    show ?thesis
    proof (cases "pending_surface_id t \<noteq> None")
      case True
      obtain ok s1 where u: "UpdateSurface t = (ok, s1)" by (cases "UpdateSurface t")
      show ?thesis
      proof (cases ok)
        case True
        show ?thesis
          apply (rule go [of s1])
          using assms(4) False \<open>pending_surface_id t \<noteq> None\<close> u True
          unfolding DequeueOutput_def by (auto simp del: not_None_eq)
      next
        case F: False
        show ?thesis
          apply (rule upd [of s1])
          using assms(4) False \<open>pending_surface_id t \<noteq> None\<close> u F
          unfolding DequeueOutput_def by (auto simp del: not_None_eq)
      qed
    next
      case N: False
      show ?thesis
        apply (rule go [of t])
        using assms(4) False N
        unfolding DequeueOutput_def by (auto simp del: not_None_eq)
    qed
  qed
  then show ?thesis
  proof cases
    case stop
    then show ?thesis using assms(1) by simp
  next
    case upd
    then show ?thesis using ext_UpdateSurface [OF assms(1,2)] by simp
  next
    case go
    have e1: "ext P s s1" "ext P t s1"
      using go(1) ext_UpdateSurface [OF assms(1,2)] ext_UpdateSurface [OF ext_refl [of P t] assms(2)]
        assms(1)
      by auto
    have pic1: "IsDrainingForResetOrDestroy s1 \<or> bitstream_buffers_in_decoder s1 = [] \<or>
       (\<forall>p. P (CallNotifyPictureReady p))"
      using go(1) assms(3) UpdateSurface_fields(1,2) [of t True s1]
      by (auto simp: IsDrainingForResetOrDestroy_def)
    have o1: "out_len s1 \<le> out_len t" using e1(2) by (auto elim!: extE)
    show ?thesis
    proof (cases "media_codec s1")
      case None
      then show ?thesis using go(4) e1 by (auto intro!: ext_update)
    next
      case (Some c)
      have ol: "out_len s1 = length (dequeue_output_results c)" using Some by (simp add: out_len_def)
      note L = DequeueOutput_loop_ext [OF e1(1) assms(2) Some refl]
      show ?thesis
      proof (cases "DequeueOutput_loop (dequeue_output_results c) s1")
        case (Inl res)
        then show ?thesis using L go(4) Some o1 ol by (cases res) auto
      next
        case (Inr x)
        obtain r s2 where x: "x = (r, s2)" by (cases x)
        from L Inr x obtain rs' where s2: "s2 = set_output_results rs' s1"
          "length rs' < length (dequeue_output_results c)" by auto
        have e2: "ext P s s2" "ext P s2 s2" unfolding s2
          by (rule ext_set_output_results [OF e1(1) Some]) (use s2(2) in simp_all)
        have pic2: "IsDrainingForResetOrDestroy s2 \<or> bitstream_buffers_in_decoder s2 = [] \<or>
          (\<forall>p. P (CallNotifyPictureReady p))" using pic1 by (simp add: s2)
        have d: "DequeueOutput_deliver r s2 = (b, t')" using go(4) Some Inr x by simp
        have o2: "out_len s2 < out_len s1" using s2 Some ol
          by (simp add: out_len_set_output_results)
        have "out_len t' \<le> out_len s2"
          using ext_deliver [OF e2(2) assms(2) pic2 d] by (auto elim!: extE)
        then show ?thesis using ext_deliver [OF e2(1) assms(2) pic2 d] o2 o1 by simp
      qed
    qed
  qed
qed

lemma queue_input_call_quiet [simp]:
  "quiet (queue_input_call i m b)" "queue_input_call i m b \<noteq> ReleaseMediaCodec"
  "queue_input_call i m b \<noteq> PostTask task"
  by (simp_all add: queue_input_call_def)

lemma ext_QueueInput_submit:
  assumes "ext P s t" "\<And>e. quiet e \<Longrightarrow> P e" "media_codec t = Some c"
    "pending_bitstream_records t \<noteq> []"
    "(\<forall>r \<in> set (pending_bitstream_records t). buffer_id (buffer r) = -1) \<or>
       (\<forall>b. P (PostTask (NotifyEndOfBitstreamBuffer b)))"
    "QueueInput_submit i c t = (b, t')"
  shows "ext P s t'"
proof (cases "buffer_id (buffer (hd (pending_bitstream_records t))) = -1")
  case True
  then have "t' = emit (CodecQueueEOS i)
                       (t\<lparr>pending_bitstream_records := tl (pending_bitstream_records t)\<rparr>)"
    using assms(6) by (simp add: QueueInput_submit_def Let_def)
  then show ?thesis by (auto intro!: ext_emit ext_update assms(1) simp: assms(2))
next
  case False
  then have pe: "P (PostTask (NotifyEndOfBitstreamBuffer x))" for x
    using assms(4,5) by (cases "pending_bitstream_records t") auto
  have cs: "ext P s (u\<lparr>media_codec := Some (pop_queue_input c)\<rparr>)"
    if "ext P s u" "media_codec u = Some c" for u
    using that by (rule ext_codec_script) (simp add: pop_queue_input_def)
  show ?thesis
    using assms(6) False assms(4) unfolding QueueInput_submit_def Let_def
    by (auto intro!: ext_emit ext_update ext_NotifyError cs assms(1) simp: assms(2,3) pe
        split: if_splits)
qed

lemma ext_QueueInput:
  assumes "ext P s t" "\<And>e. quiet e \<Longrightarrow> P e"
    "(\<forall>r \<in> set (pending_bitstream_records t). buffer_id (buffer r) = -1) \<or>
       (\<forall>b. P (PostTask (NotifyEndOfBitstreamBuffer b)))"
    "QueueInput t = (b, t')"
  shows "ext P s t'"
proof (cases "state t = ERROR \<or> state t = WAITING_FOR_CODEC \<or> state t = WAITING_FOR_KEY \<or>
     length (bitstreams_notified_in_advance t) > kMaxBitstreamsNotifiedInAdvance \<or> pending_bitstream_records t = []")
  case True
  then have "t' = t" using assms(4) by (auto simp: QueueInput_def split: if_splits)
  then show ?thesis using assms(1) by simp
next
  case False
  show ?thesis
  proof (cases "media_codec t")
    case None
    then have "t' = t\<lparr>fault := True\<rparr>" using assms(4) False by (auto simp: QueueInput_def)
    then show ?thesis by (auto intro!: ext_update assms(1))
  next
    case (Some c)
    show ?thesis
    proof (cases "pending_input_buf_index t = -1")
      case True
      obtain st ix where n: "next_dequeue_input c = (st, ix)" by (cases "next_dequeue_input c")
      let ?s1 = "t\<lparr>media_codec := Some (pop_dequeue_input c)\<rparr>"
      have e1: "ext P s ?s1"
        by (rule ext_codec_script [OF assms(1) Some]) (simp add: pop_dequeue_input_def)
      show ?thesis
      proof (cases "st = MEDIA_CODEC_OK")
        case True
        then have q: "QueueInput_submit ix (pop_dequeue_input c) ?s1 = (b, t')"
          using assms(4) False Some \<open>pending_input_buf_index t = -1\<close> n by (simp add: QueueInput_def Let_def)
        show ?thesis
          by (rule ext_QueueInput_submit [OF e1 assms(2) _ _ _ q]) (use False assms(3) in auto)
      next
        case F: False
        then have "t' = ?s1 \<or> t' = NotifyError PLATFORM_FAILURE ?s1" using assms(4) False Some True n
          by (cases st) (auto simp: QueueInput_def Let_def)
        then show ?thesis using e1 by (auto intro!: ext_NotifyError simp: assms(2))
      qed
    next
      case F: False
      then have q: "QueueInput_submit (pending_input_buf_index t) c t = (b, t')"
        using assms(4) False Some by (simp add: QueueInput_def Let_def)
      show ?thesis
        by (rule ext_QueueInput_submit [OF assms(1,2) Some _ _ q]) (use False assms(3) in auto)
    qed
  qed
qed

text \<open>
  A round of the do-while that makes progress lowers \<open>io_measure\<close>. So the bound DoIOTask
  gives the loop is never what ends it: any larger bound yields the same result, and the
  loop satisfies the equation of the do-while.
\<close>

lemma round_measure:
  assumes "QueueInput s = (di, s1)" "DequeueOutput s1 = (dout, s2)" "di \<or> dout"
  shows "io_measure s2 < io_measure s"
proof -
  have q: "out_len s1 = out_len s" "length (pending_bitstream_records s1) \<le> length (pending_bitstream_records s)"
    "di \<longrightarrow> length (pending_bitstream_records s1) < length (pending_bitstream_records s)"
    using QueueInput_measure [OF assms(1)] by auto
  have d: "ext any_event s1 s2" "dout \<longrightarrow> out_len s2 < out_len s1"
    using ext_DequeueOutput [OF ext_refl [of any_event s1] _ _ assms(2)] by (auto simp: any_event_def)
  have "length (pending_bitstream_records s2) \<le> length (pending_bitstream_records s1)" "out_len s2 \<le> out_len s1"
    using d(1) by (auto elim!: extE)
  then show ?thesis using q d(2) assms(3) by (auto simp: io_measure_def)
qed

lemma DoIOTask_rounds_enough_aux:
  "io_measure s < n \<Longrightarrow> io_measure s < m \<Longrightarrow> DoIOTask_rounds n w s = DoIOTask_rounds m w s"
proof (induction n arbitrary: m s w)
  case 0
  then show ?case by simp
next
  case (Suc n)
  then obtain m' where m: "m = Suc m'" by (cases m) auto
  obtain di s1 where q: "QueueInput s = (di, s1)" by (cases "QueueInput s")
  obtain dout s2 where d: "DequeueOutput s1 = (dout, s2)" by (cases "DequeueOutput s1")
  show ?case
  proof (cases "di \<or> dout")
    case True
    from round_measure [OF q d True] Suc.prems m
    have "io_measure s2 < n" "io_measure s2 < m'" by auto
    from Suc.IH [OF this] show ?thesis using q d True m by simp
  next
    case False
    then show ?thesis using q d m by simp
  qed
qed

lemma DoIOTask_rounds_enough:
  "io_measure s < n \<Longrightarrow> DoIOTask_rounds n w s = DoIOTask_rounds (Suc (io_measure s)) w s"
  by (rule DoIOTask_rounds_enough_aux) simp_all

lemma DoIOTask_rounds_unfold:
  "DoIOTask_rounds (Suc (io_measure s)) w s =
     (let (did_input, s1) = QueueInput s;
          (did_output, s2) = DequeueOutput s1
      in if did_input \<or> did_output then DoIOTask_rounds (Suc (io_measure s2)) True s2 else (w, s2))"
proof -
  obtain di s1 where q: "QueueInput s = (di, s1)" by (cases "QueueInput s")
  obtain dout s2 where d: "DequeueOutput s1 = (dout, s2)" by (cases "DequeueOutput s1")
  show ?thesis
  proof (cases "di \<or> dout")
    case True
    from round_measure [OF q d True] have "io_measure s2 < io_measure s" .
    from DoIOTask_rounds_enough [OF this] show ?thesis using q d True by simp
  next
    case False
    then show ?thesis using q d by simp
  qed
qed

section \<open>The I/O task as a whole\<close>





text \<open>The pending queue and the timestamp map under the timer, the codec construction and the
  codec reset.\<close>

lemma helper_maps [simp]:
  "bitstream_buffers_in_decoder (ManageTimer b s) = bitstream_buffers_in_decoder s"
  "bitstream_buffers_in_decoder (OnCodecConfigured c s) = bitstream_buffers_in_decoder s"
  "pending_bitstream_records (OnCodecConfigured c s) = pending_bitstream_records s"
  by (simp_all add: ManageTimer_def OnCodecConfigured_def Let_def)

lemma Configure_maps [simp]:
  "bitstream_buffers_in_decoder (ConfigureMediaCodecAsynchronously s) = bitstream_buffers_in_decoder s"
  "pending_bitstream_records (ConfigureMediaCodecAsynchronously s) = pending_bitstream_records s"
  by (simp_all add: ConfigureMediaCodecAsynchronously_def Let_def)

lemma ResetCodecState_maps:
  "pending_bitstream_records (ResetCodecState s) = pending_bitstream_records s"
  "state s \<noteq> WAITING_FOR_CODEC \<Longrightarrow> state s \<noteq> SURFACE_DESTROYED \<Longrightarrow>
     bitstream_buffers_in_decoder (ResetCodecState s) = []"
  by (simp_all add: ResetCodecState_def Let_def split: option.splits)

lemma OnDrainCompleted_maps:
  "pending_bitstream_records (OnDrainCompleted s) = pending_bitstream_records s"
  "state s \<noteq> WAITING_FOR_CODEC \<Longrightarrow> state s \<noteq> SURFACE_DESTROYED \<Longrightarrow>
     bitstream_buffers_in_decoder (OnDrainCompleted s) = []"
  by (cases "drain_type s"; simp add: OnDrainCompleted_def ResetCodecState_maps)+


section \<open>Initialization and the notified-in-advance limit\<close>

lemma Initialize_rejects_mode_and_kind:
  assumes "output_mode config \<noteq> ALLOCATE \<or>
           (cfg_codec config \<noteq> kCodecVP8 \<and> cfg_codec config \<noteq> kCodecVP9 \<and>
            \<not> (enable_hevc_demuxing (platform s) \<and> cfg_codec config = kCodecHEVC) \<and>
            cfg_codec config \<noteq> kCodecH264)"
  shows "\<not> fst (Initialize config s) \<and> trace (snd (Initialize config s)) = trace s
         \<and> media_codec (snd (Initialize config s)) = media_codec s"
  using assms by (auto simp: Initialize_def Let_def)

text \<open>
  C8, at the failing input. Initialize checks the output mode and the codec kind, and never
  looks at the coded size: for H264 at 4096x4096 on a platform where every call succeeds it
  returns true and asks the allocator for a codec, although ConfigSupported refuses that
  codec and size.
\<close>

theorem Initialize_accepts_oversize:
  "fst (Initialize oversize_config (mcvd_init ok_platform))
   \<and> trace (snd (Initialize oversize_config (mcvd_init ok_platform)))
       = [AllocateSurface 7, PbmInitialize 7, StartThread, CreateMediaCodecAsync]
   \<and> state (snd (Initialize oversize_config (mcvd_init ok_platform))) = WAITING_FOR_CODEC
   \<and> \<not> ConfigSupported ok_platform True True
         \<lparr>vdc_codec = cfg_codec oversize_config,
          coded_size = cfg_initial_expected_coded_size oversize_config,
          vdc_is_encrypted = cfg_is_encrypted oversize_config\<rparr>"
  by (simp add: Initialize_def oversize_config_def mcvd_init_def ok_platform_def Let_def
      IsMediaCodecSoftwareDecodingForbidden_def ShouldDeferSurfaceCreation_def kNoSurfaceID_def
      InitializePictureBufferManager_def emit_def ConfigureMediaCodecAsynchronously_def
      ConfigSupported_def)

text \<open>
  C7, at the failing input. With 32 inputs already notified in advance QueueInput does not
  refuse: it submits the next input and posts its NotifyEndOfBitstreamBuffer, which makes 33.
\<close>

theorem QueueInput_exceeds_limit:
  "length (bitstreams_notified_in_advance at_limit_decoder) = kMaxBitstreamsNotifiedInAdvance
   \<and> fst (QueueInput at_limit_decoder)
   \<and> length (bitstreams_notified_in_advance (snd (QueueInput at_limit_decoder))) = 33
   \<and> trace (snd (QueueInput at_limit_decoder))
       = [CodecQueueInputBuffer 0 (Some 4096) 100 32000, PostTask (NotifyEndOfBitstreamBuffer 32)]"
  by (simp add: at_limit_decoder_def steady_decoder_def accepting_codec_def idle_codec_def
      mcvd_init_def QueueInput_def QueueInput_submit_def kMaxBitstreamsNotifiedInAdvance_def
      next_dequeue_input_def pop_dequeue_input_def next_queue_input_def pop_queue_input_def
      mk_BitstreamRecord_def plain_buffer_def mapped_region_def emit_def Let_def
      queue_input_call_def)

section \<open>Matching output to the timestamp map\<close>

lemma picture_ready_ids_append [simp]:
  "picture_ready_ids (xs @ ys) = picture_ready_ids xs @ picture_ready_ids ys"
  by (induction xs rule: picture_ready_ids.induct) simp_all

lemma eobb_ids_append [simp]:
  "eobb_ids (xs @ ys) = eobb_ids xs @ eobb_ids ys"
  by (induction xs rule: eobb_ids.induct) simp_all

lemma client_errors_append [simp]:
  "client_errors (xs @ ys) = client_errors xs @ client_errors ys"
  by (induction xs rule: client_errors.induct) simp_all

lemma map_find_None_iff: "map_find k m = None \<longleftrightarrow> k \<notin> fst ` set m"
  by (induction m) (force split: if_splits)+

lemma sorted_keys_Cons:
  "sorted_keys ((k, v) # m) \<longleftrightarrow> (\<forall>e \<in> set m. k < fst e) \<and> sorted_keys m"
  by (auto simp: sorted_keys_def)

lemma map_assign_set: "fst ` set (map_assign k v m) = insert k (fst ` set m)"
proof (induction m)
  case Nil
  then show ?case by simp
next
  case (Cons e m)
  obtain k' v' where e: "e = (k', v')" by (cases e)
  show ?case unfolding e using Cons by (cases "k < k'"; cases "k = k'") auto
qed

lemma map_assign_sorted: "sorted_keys m \<Longrightarrow> sorted_keys (map_assign k v m)"
proof (induction m)
  case Nil
  then show ?case by (simp add: sorted_keys_def)
next
  case (Cons e m)
  obtain k' v' where e: "e = (k', v')" by (cases e)
  have "\<forall>x \<in> set (map_assign k v m). k' < fst x" if "k' < k" "\<forall>x \<in> set m. k' < fst x"
    using that map_assign_set [of k v m] by (metis (no_types, lifting) imageI image_iff insert_iff)
  then show ?case using Cons unfolding e
    by (auto simp: sorted_keys_Cons)
qed

lemma erase_through_filter:
  "sorted_keys m \<Longrightarrow> map_find t m = Some b \<Longrightarrow>
   erase_through t m = filter (\<lambda>e. t < fst e) m"
proof (induction m)
  case Nil
  then show ?case by simp
next
  case (Cons e m)
  obtain k v where e: "e = (k, v)" by (cases e)
  show ?case
  proof (cases "t = k")
    case True
    have "filter (\<lambda>e. k < fst e) m = m" using Cons.prems(1) unfolding e
      by (auto simp: sorted_keys_Cons filter_id_conv)
    then show ?thesis using True e by simp
  next
    case False
    then have f: "map_find t m = Some b" using Cons.prems(2) e by simp
    then have "t \<in> fst ` set m" using map_find_None_iff [of t m] by auto
    then have "k < t" using Cons.prems(1) unfolding e by (auto simp: sorted_keys_Cons)
    then show ?thesis using Cons e f False by (simp add: sorted_keys_Cons)
  qed
qed

lemma Send_picture_ready:
  "picture_ready_ids (trace (SendDecodedFrameToClient i b s)) =
     picture_ready_ids (trace s) @ (if can_send_picture s then [b] else [])"
  by (simp add: SendDecodedFrameToClient_def can_send_picture_def Let_def
      split: list.splits option.splits)

lemma Send_map [simp]:
  "bitstream_buffers_in_decoder (SendDecodedFrameToClient i b s) = bitstream_buffers_in_decoder s"
  by (simp add: SendDecodedFrameToClient_def Let_def split: list.splits option.splits)

lemma DequeueOutput_ready:
  assumes "output_open s" "media_codec s = Some c" "dequeue_output_results c = r # rs"
    "out_status r = MEDIA_CODEC_OK" "0 \<le> out_index r"
  shows "DequeueOutput s = DequeueOutput_deliver r (set_output_results rs s)"
  using assms by (auto simp: DequeueOutput_def output_open_def Let_def)

lemmas example_defs = decoder_with_output_def steady_decoder_def idle_codec_def mcvd_init_def
  ok_platform_def frame_at_def

text \<open>
  C10. A decoded frame (status OK, a non-negative buffer index, no end-of-stream flag) whose
  timestamp is not a key of \<open>bitstream_buffers_in_decoder\<close> is released to the codec
  unrendered, and that release is all DequeueOutput does: apart from the codec having given
  its answer, the decoder is as before, so no picture is sent, no picture buffer id is taken,
  no error is reported and the timestamp map is untouched.
\<close>

theorem DequeueOutput_unmatched:
  assumes "output_open s" "media_codec s = Some c" "dequeue_output_results c = r # rs"
    "out_status r = MEDIA_CODEC_OK" "0 \<le> out_index r" "\<not> out_eos r"
    "map_find (out_timestamp r) (bitstream_buffers_in_decoder s) = None"
  shows "DequeueOutput s =
           (True, emit (CodecReleaseOutputBuffer (out_index r) False) (set_output_results rs s))"
proof -
  have "DequeueOutput s = DequeueOutput_deliver r (set_output_results rs s)"
    using assms(1-5) by (rule DequeueOutput_ready)
  also have "\<dots> = (True, emit (CodecReleaseOutputBuffer (out_index r) False) (set_output_results rs s))"
    using assms(6,7) by (simp add: DequeueOutput_deliver_def set_output_results_def)
  finally show ?thesis .
qed

theorem DequeueOutput_unmatched_witness:
  "output_open (decoder_with_output (frame_at 3 5))
   \<and> map_find 5 (bitstream_buffers_in_decoder (decoder_with_output (frame_at 3 5))) = None
   \<and> DequeueOutput (decoder_with_output (frame_at 3 5)) =
       (True, emit (CodecReleaseOutputBuffer 3 False)
                (set_output_results [] (decoder_with_output (frame_at 3 5))))
   \<and> trace (snd (DequeueOutput (decoder_with_output (frame_at 3 5)))) =
       [CodecReleaseOutputBuffer 3 False]"
proof -
  let ?s = "decoder_with_output (frame_at 3 5)"
  have h: "output_open ?s" "media_codec ?s = Some (idle_codec\<lparr>dequeue_output_results := [frame_at 3 5]\<rparr>)"
    "dequeue_output_results (idle_codec\<lparr>dequeue_output_results := [frame_at 3 5]\<rparr>) = frame_at 3 5 # []"
    "out_status (frame_at 3 5) = MEDIA_CODEC_OK" "0 \<le> out_index (frame_at 3 5)" "\<not> out_eos (frame_at 3 5)"
    "map_find (out_timestamp (frame_at 3 5)) (bitstream_buffers_in_decoder ?s) = None"
    by (simp_all add: example_defs output_open_def)
  from DequeueOutput_unmatched [OF h] h(1,7) show ?thesis
    by (simp add: example_defs emit_def set_output_results_def)
qed

text \<open>
  C6, as amended. The timestamp map is searched for the exact timestamp of the frame. When
  an entry with that key exists and the decoder is not draining for reset or destroy, every
  entry with a key up to and including the timestamp is removed, and the picture the client
  is sent (when the GL context is current and a free picture buffer exists) carries the
  bitstream id stored at that key.
\<close>

theorem DequeueOutput_match:
  assumes "output_open s" "media_codec s = Some c" "dequeue_output_results c = r # rs"
    "out_status r = MEDIA_CODEC_OK" "0 \<le> out_index r" "\<not> out_eos r"
    "\<not> IsDrainingForResetOrDestroy s"
    "sorted_keys (bitstream_buffers_in_decoder s)"
    "map_find (out_timestamp r) (bitstream_buffers_in_decoder s) = Some b"
  shows "fst (DequeueOutput s)
    \<and> bitstream_buffers_in_decoder (snd (DequeueOutput s)) =
        filter (\<lambda>e. out_timestamp r < fst e) (bitstream_buffers_in_decoder s)
    \<and> picture_ready_ids (trace (snd (DequeueOutput s))) =
        picture_ready_ids (trace s) @ (if can_send_picture s then [b] else [])"
proof -
  have d: "DequeueOutput s = DequeueOutput_deliver r (set_output_results rs s)"
    using assms(1-5) by (rule DequeueOutput_ready)
  have c: "can_send_picture (set_output_results rs s\<lparr>bitstream_buffers_in_decoder := m\<rparr>) = can_send_picture s" for m
    by (simp add: can_send_picture_def set_output_results_def split: list.splits)
  show ?thesis unfolding d
    using assms(6-9) erase_through_filter [OF assms(8,9)]
    by (simp add: DequeueOutput_deliver_def Let_def Send_picture_ready c)
qed

theorem DequeueOutput_match_witness:
  "output_open (decoder_with_output (frame_at 3 10))
   \<and> sorted_keys (bitstream_buffers_in_decoder (decoder_with_output (frame_at 3 10)))
   \<and> map_find 10 (bitstream_buffers_in_decoder (decoder_with_output (frame_at 3 10))) = Some 8
   \<and> fst (DequeueOutput (decoder_with_output (frame_at 3 10)))
   \<and> bitstream_buffers_in_decoder (snd (DequeueOutput (decoder_with_output (frame_at 3 10)))) = []
   \<and> picture_ready_ids (trace (snd (DequeueOutput (decoder_with_output (frame_at 3 10))))) = [8]"
proof -
  let ?s = "decoder_with_output (frame_at 3 10)"
  have h: "output_open ?s" "media_codec ?s = Some (idle_codec\<lparr>dequeue_output_results := [frame_at 3 10]\<rparr>)"
    "dequeue_output_results (idle_codec\<lparr>dequeue_output_results := [frame_at 3 10]\<rparr>) = frame_at 3 10 # []"
    "out_status (frame_at 3 10) = MEDIA_CODEC_OK" "0 \<le> out_index (frame_at 3 10)" "\<not> out_eos (frame_at 3 10)"
    "\<not> IsDrainingForResetOrDestroy ?s"
    "sorted_keys (bitstream_buffers_in_decoder ?s)"
    "map_find (out_timestamp (frame_at 3 10)) (bitstream_buffers_in_decoder ?s) = Some 8"
    by (simp_all add: example_defs output_open_def IsDrainingForResetOrDestroy_def sorted_keys_def)
  have c: "can_send_picture ?s" by (simp add: example_defs can_send_picture_def)
  from DequeueOutput_match [OF h] h(1,8,9) c show ?thesis
    by (simp add: example_defs)
qed

text \<open>
  C6 as stated fails: with entries at timestamps 0 and 10 in the map, a frame with timestamp
  5 has an entry at or before it (timestamp 0, id 7), but DequeueOutput consumes no entry and
  sends no picture.
\<close>

theorem DequeueOutput_earlier_entry_not_consumed:
  "map_find 0 (bitstream_buffers_in_decoder (decoder_with_output (frame_at 3 5))) = Some 7
   \<and> (0::int) \<le> out_timestamp (frame_at 3 5)
   \<and> \<not> IsDrainingForResetOrDestroy (decoder_with_output (frame_at 3 5))
   \<and> fst (DequeueOutput (decoder_with_output (frame_at 3 5)))
   \<and> bitstream_buffers_in_decoder (snd (DequeueOutput (decoder_with_output (frame_at 3 5))))
       = [(0, 7), (10, 8)]
   \<and> picture_ready_ids (trace (snd (DequeueOutput (decoder_with_output (frame_at 3 5))))) = []"
  by (simp add: example_defs IsDrainingForResetOrDestroy_def DequeueOutput_def
      DequeueOutput_deliver_def set_output_results_def emit_def Let_def)

section \<open>Waiting for a key\<close>



text \<open>The steps of DequeueOutput satisfy \<open>wait_step\<close>.\<close>

lemma wait_step_refl [simp]: "wait_step t t"
  by (simp add: wait_step_def)


lemma wait_step_simps [simp]:
  "wait_step s (emit e t) = wait_step s t"
  "wait_step s (t\<lparr>drain_type := d\<rparr>) = wait_step s t"
  "wait_step s (t\<lparr>fault := f\<rparr>) = wait_step s t"
  "wait_step s (t\<lparr>output_size := z\<rparr>) = wait_step s t"
  "wait_step s (t\<lparr>bitstream_buffers_in_decoder := m\<rparr>) = wait_step s t"
  "wait_step s (t\<lparr>free_picture_ids := ids\<rparr>) = wait_step s t"
  "wait_step s (t\<lparr>output_picture_buffers := bs\<rparr>) = wait_step s t"
  "wait_step s (t\<lparr>surface_id := n\<rparr>) = wait_step s t"
  "wait_step s (t\<lparr>pending_surface_id := p\<rparr>) = wait_step s t"
  "wait_step s (t\<lparr>codec_needs_reset := r\<rparr>) = wait_step s t"
  "wait_step s (set_output_results rs t) = wait_step s t"
  "wait_step s (NotifyError err t) = wait_step s (t\<lparr>state := ERROR\<rparr>)"
  by (simp_all add: wait_step_def)



















lemma key_wait_inv_simps [simp]:
  "key_wait_inv i rs (ManageTimer b t) = key_wait_inv i rs t"
  "key_wait_inv i rs (emit e t) = key_wait_inv i rs t"
  by (simp_all add: key_wait_inv_def ManageTimer_def Let_def)




text \<open>While the codec has nothing to report, the decoder stays in WAITING_FOR_KEY.\<close>

lemma output_silent_simps [simp]:
  "output_silent (emit e t) = output_silent t"
  "output_silent (ManageTimer b t) = output_silent t"
  "state (ManageTimer b t) = state t"
  by (simp_all add: output_silent_def ManageTimer_def emit_def Let_def)












section \<open>The I/O task with nothing to do\<close>

lemma only_try_again_pop:
  assumes "only_try_again c"
  shows "only_try_again (pop_dequeue_input c)" "only_try_again (c\<lparr>dequeue_output_results := tl (dequeue_output_results c)\<rparr>)"
    "fst (next_dequeue_input c) = MEDIA_CODEC_DEQUEUE_INPUT_AGAIN_LATER"
  using assms
  by (cases "dequeue_input_results c"; cases "dequeue_output_results c";
      auto simp: only_try_again_def pop_dequeue_input_def next_dequeue_input_def)+

lemma QueueInput_idle:
  assumes "media_codec s = Some c" "only_try_again c"
    "state s = NO_ERROR \<longrightarrow> pending_input_buf_index s = -1"
    "state s \<noteq> SURFACE_DESTROYED"
  shows "\<exists>c'. QueueInput s = (False, s\<lparr>media_codec := Some c'\<rparr>) \<and> only_try_again c'"
proof (cases "state s = ERROR \<or> state s = WAITING_FOR_CODEC \<or> state s = WAITING_FOR_KEY \<or>
     length (bitstreams_notified_in_advance s) > kMaxBitstreamsNotifiedInAdvance \<or> pending_bitstream_records s = []")
  case True
  then have "QueueInput s = (False, s)" by (auto simp: QueueInput_def)
  moreover have "s\<lparr>media_codec := Some c\<rparr> = s" using assms(1) by simp
  ultimately show ?thesis using assms(2) by metis
next
  case False
  then have st: "state s = NO_ERROR" using assms(4) by (cases "state s") auto
  obtain x i where n: "next_dequeue_input c = (x, i)" by (cases "next_dequeue_input c")
  then have x: "x = MEDIA_CODEC_DEQUEUE_INPUT_AGAIN_LATER" using only_try_again_pop(3) [OF assms(2)] by simp
  have "QueueInput s = (False, s\<lparr>media_codec := Some (pop_dequeue_input c)\<rparr>)"
    using False st assms(1,3) n x by (simp add: QueueInput_def Let_def)
  then show ?thesis using only_try_again_pop(1) [OF assms(2)] by blast
qed

lemma DequeueOutput_idle:
  assumes "media_codec s = Some c" "only_try_again c" "pending_surface_id s = None"
  shows "\<exists>c'. DequeueOutput s = (False, s\<lparr>media_codec := Some c'\<rparr>) \<and> only_try_again c'"
proof (cases "state s = ERROR \<or> state s = WAITING_FOR_CODEC \<or>
      (output_picture_buffers s \<noteq> [] \<and> free_picture_ids s = [] \<and> \<not> IsDrainingForResetOrDestroy s)")
  case True
  then have "DequeueOutput s = (False, s)" by (auto simp: DequeueOutput_def)
  moreover have "s\<lparr>media_codec := Some c\<rparr> = s" using assms(1) by simp
  ultimately show ?thesis using assms(2) by metis
next
  case False
  have d: "DequeueOutput s = (case DequeueOutput_loop (dequeue_output_results c) s of
                      Inl res \<Rightarrow> res | Inr (r, s2) \<Rightarrow> DequeueOutput_deliver r s2)"
    using False assms(1,3) by (auto simp: DequeueOutput_def)
  show ?thesis
  proof (cases "dequeue_output_results c")
    case Nil
    then have "DequeueOutput s = (False, s)" using d by simp
    moreover have "s\<lparr>media_codec := Some c\<rparr> = s" using assms(1) by simp
    ultimately show ?thesis using assms(2) by metis
  next
    case (Cons r rs)
    then have r: "out_status r = MEDIA_CODEC_DEQUEUE_OUTPUT_AGAIN_LATER"
      using assms(2) by (simp add: only_try_again_def)
    have "DequeueOutput s = (False, s\<lparr>media_codec := Some (c\<lparr>dequeue_output_results := rs\<rparr>)\<rparr>)"
      using d Cons r assms(1) by (simp add: set_output_results_def)
    moreover have "only_try_again (c\<lparr>dequeue_output_results := rs\<rparr>)"
      using only_try_again_pop(2) [OF assms(2)] Cons by simp
    ultimately show ?thesis by blast
  qed
qed

lemma ManageTimer_shape:
  "\<exists>t e. ManageTimer b u = u\<lparr>most_recent_work := t, trace := trace u @ [e]\<rparr> \<and>
      (e = ManagerStartTimer \<or> e = ManagerStopTimer)"
proof (cases "\<not> b \<and> most_recent_work u \<noteq> 0")
  case True
  show ?thesis
  proof (cases "now (platform u) - most_recent_work u > IdleTimerTimeOut")
    case T: True
    have "ManageTimer b u = u\<lparr>most_recent_work := 0, trace := trace u @ [ManagerStopTimer]\<rparr>"
      using True T by (simp add: ManageTimer_def emit_def)
    then show ?thesis by blast
  next
    case F: False
    have "ManageTimer b u = u\<lparr>most_recent_work := most_recent_work u, trace := trace u @ [ManagerStartTimer]\<rparr>"
      using True F by (simp add: ManageTimer_def emit_def)
    then show ?thesis by blast
  qed
next
  case False
  have "ManageTimer b u = u\<lparr>most_recent_work := now (platform u), trace := trace u @ [ManagerStartTimer]\<rparr>"
    using False by (auto simp: ManageTimer_def emit_def)
  then show ?thesis by blast
qed

lemma DoIOTask_idle:
  assumes "media_codec s = Some c" "only_try_again c" "pending_surface_id s = None"
    "state s = NO_ERROR \<longrightarrow> pending_input_buf_index s = -1"
  shows "\<exists>c' t evs. DoIOTask b s = s\<lparr>media_codec := Some c', most_recent_work := t, trace := trace s @ evs\<rparr>
      \<and> only_try_again c' \<and> set evs \<subseteq> {PbmMaybeRenderEarly, ManagerStartTimer, ManagerStopTimer}"
proof (cases "state s = ERROR \<or> state s = WAITING_FOR_CODEC \<or> state s = SURFACE_DESTROYED")
  case True
  then have "DoIOTask b s = s" by (auto simp: DoIOTask_def)
  moreover have "s\<lparr>media_codec := Some c, most_recent_work := most_recent_work s, trace := trace s @ []\<rparr> = s"
    using assms(1) by simp
  ultimately show ?thesis using assms(2) by (metis empty_set empty_subsetI)
next
  case False
  let ?s1 = "emit PbmMaybeRenderEarly s"
  have h1: "media_codec ?s1 = Some c" "state ?s1 = NO_ERROR \<longrightarrow> pending_input_buf_index ?s1 = -1"
    "state ?s1 \<noteq> SURFACE_DESTROYED"
    using assms False by simp_all
  from QueueInput_idle [OF h1(1) assms(2) h1(2,3)] obtain c1 where
    q: "QueueInput ?s1 = (False, ?s1\<lparr>media_codec := Some c1\<rparr>)" "only_try_again c1" by blast
  let ?u = "?s1\<lparr>media_codec := Some c1\<rparr>"
  have h2: "media_codec ?u = Some c1" "pending_surface_id ?u = None" using assms(3) by simp_all
  from DequeueOutput_idle [OF h2(1) q(2) h2(2)] obtain c2 where
    d: "DequeueOutput ?u = (False, ?u\<lparr>media_codec := Some c2\<rparr>)" "only_try_again c2" by blast
  have r: "DoIOTask_rounds (Suc (io_measure ?s1)) False ?s1 = (False, ?u\<lparr>media_codec := Some c2\<rparr>)"
    using q(1) d(1) by simp
  have D: "DoIOTask b s = ManageTimer b (?u\<lparr>media_codec := Some c2\<rparr>)"
    using False r by (simp add: DoIOTask_def Let_def)
  from ManageTimer_shape [of b "?u\<lparr>media_codec := Some c2\<rparr>"] obtain t e where
    m: "ManageTimer b (?u\<lparr>media_codec := Some c2\<rparr>) =
          (?u\<lparr>media_codec := Some c2\<rparr>)\<lparr>most_recent_work := t,
             trace := trace (?u\<lparr>media_codec := Some c2\<rparr>) @ [e]\<rparr>"
      "e = ManagerStartTimer \<or> e = ManagerStopTimer" by blast
  have "DoIOTask b s = s\<lparr>media_codec := Some c2, most_recent_work := t,
            trace := trace s @ [PbmMaybeRenderEarly, e]\<rparr>"
    unfolding D m(1) by (simp add: emit_def)
  moreover have "set [PbmMaybeRenderEarly, e] \<subseteq> {PbmMaybeRenderEarly, ManagerStartTimer, ManagerStopTimer}"
    using m(2) by auto
  ultimately show ?thesis using d(2) by blast
qed

text \<open>
  C3, as amended. Take a decoder whose codec answers "again later" to every dequeue, with no
  surface change pending and, in state NO_ERROR, no input buffer index held over from a
  MEDIA_CODEC_NO_KEY. Running DoIOTask once, or twice in a row, changes no field of the
  decoder other than \<open>most_recent_work\<close> (and what the codec will answer next); the only
  calls made are MaybeRenderEarly and the manager's StartTimer or StopTimer, so the client is
  told nothing.
\<close>

theorem DoIOTask_twice_idle:
  assumes "media_codec s = Some c" "only_try_again c" "pending_surface_id s = None"
    "state s = NO_ERROR \<longrightarrow> pending_input_buf_index s = -1"
  shows "same_decoder_fields s (DoIOTask b1 s)
    \<and> same_decoder_fields s (DoIOTask b2 (DoIOTask b1 s))
    \<and> (\<exists>evs. trace (DoIOTask b2 (DoIOTask b1 s)) = trace s @ evs \<and>
          set evs \<subseteq> {PbmMaybeRenderEarly, ManagerStartTimer, ManagerStopTimer})"
proof -
  from DoIOTask_idle [OF assms, of b1] obtain c1 t1 e1 where
    s1: "DoIOTask b1 s = s\<lparr>media_codec := Some c1, most_recent_work := t1, trace := trace s @ e1\<rparr>"
      "only_try_again c1" "set e1 \<subseteq> {PbmMaybeRenderEarly, ManagerStartTimer, ManagerStopTimer}"
    by blast
  let ?s1 = "s\<lparr>media_codec := Some c1, most_recent_work := t1, trace := trace s @ e1\<rparr>"
  have h: "media_codec ?s1 = Some c1" "pending_surface_id ?s1 = None"
    "state ?s1 = NO_ERROR \<longrightarrow> pending_input_buf_index ?s1 = -1"
    using assms by simp_all
  from DoIOTask_idle [OF h(1) s1(2) h(2,3), of b2] obtain c2 t2 e2 where
    s2: "DoIOTask b2 ?s1 = ?s1\<lparr>media_codec := Some c2, most_recent_work := t2, trace := trace ?s1 @ e2\<rparr>"
      "only_try_again c2" "set e2 \<subseteq> {PbmMaybeRenderEarly, ManagerStartTimer, ManagerStopTimer}"
    by blast
  have a: "same_decoder_fields s (DoIOTask b1 s)"
    unfolding s1(1) by (simp add: same_decoder_fields_def)
  have b: "same_decoder_fields s (DoIOTask b2 (DoIOTask b1 s))"
    unfolding s1(1) s2(1) by (simp add: same_decoder_fields_def)
  have c: "trace (DoIOTask b2 (DoIOTask b1 s)) = trace s @ (e1 @ e2)"
    unfolding s1(1) s2(1) by simp
  have "set (e1 @ e2) \<subseteq> {PbmMaybeRenderEarly, ManagerStartTimer, ManagerStopTimer}"
    using s1(3) s2(3) by simp
  with a b c show ?thesis by blast
qed

theorem DoIOTask_twice_idle_witness:
  "media_codec (steady_decoder idle_codec) = Some idle_codec
   \<and> only_try_again idle_codec
   \<and> pending_surface_id (steady_decoder idle_codec) = None
   \<and> pending_input_buf_index (steady_decoder idle_codec) = -1
   \<and> same_decoder_fields (steady_decoder idle_codec)
        (DoIOTask False (DoIOTask False (steady_decoder idle_codec)))
   \<and> (\<exists>evs. trace (DoIOTask False (DoIOTask False (steady_decoder idle_codec))) =
          trace (steady_decoder idle_codec) @ evs \<and>
          set evs \<subseteq> {PbmMaybeRenderEarly, ManagerStartTimer, ManagerStopTimer})"
proof -
  have h: "media_codec (steady_decoder idle_codec) = Some idle_codec"
    "only_try_again idle_codec"
    "pending_surface_id (steady_decoder idle_codec) = None"
    "pending_input_buf_index (steady_decoder idle_codec) = -1"
    by (simp_all add: steady_decoder_def mcvd_init_def only_try_again_def idle_codec_def)
  have i: "state (steady_decoder idle_codec) = NO_ERROR \<longrightarrow>
           pending_input_buf_index (steady_decoder idle_codec) = -1" using h(4) by simp
  from DoIOTask_twice_idle [OF h(1,2,3) i, of False False] h show ?thesis by blast
qed

text \<open>
  C3 as stated fails when a surface change is pending: the codec is idle and nothing is
  queued, yet DoIOTask carries out the switch, and when the new surface cannot be allocated
  the state becomes ERROR and the client is sent PLATFORM_FAILURE.
\<close>

theorem DoIOTask_surface_switch_fails:
  "media_codec switching_decoder = Some idle_codec
   \<and> only_try_again idle_codec
   \<and> state switching_decoder = NO_ERROR
   \<and> pending_bitstream_records switching_decoder = []
   \<and> state (DoIOTask False switching_decoder) = ERROR
   \<and> pending_surface_id (DoIOTask False switching_decoder) = None
   \<and> client_errors (trace (DoIOTask False switching_decoder)) = [PLATFORM_FAILURE]"
  by (simp add: switching_decoder_def steady_decoder_def idle_codec_def mcvd_init_def
      ok_platform_def only_try_again_def DoIOTask_def io_measure_def out_len_def
      QueueInput_def DequeueOutput_def IsDrainingForResetOrDestroy_def UpdateSurface_def
      switch_surface_def release_codec_after_failed_switch_def NotifyError_def
      ManageTimer_def emit_def Let_def)

section \<open>Errors while draining\<close>








text \<open>
  The errors of the other codec calls take the ordinary path during a drain as well: a
  failed DequeueInputBuffer, and a failed GetOutputSize after a format change while draining
  for reset, set the state to ERROR and report PLATFORM_FAILURE to the client if there is
  one; the drain intent stays and no completion task is posted.
\<close>

lemma QueueInput_error_while_draining:
  assumes "state s = NO_ERROR" "length (bitstreams_notified_in_advance s) \<le> 32"
    "pending_bitstream_records s \<noteq> []" "media_codec s = Some c"
    "pending_input_buf_index s = -1" "next_dequeue_input c = (MEDIA_CODEC_ERROR, i)"
  shows "QueueInput s =
      (False, NotifyError PLATFORM_FAILURE (s\<lparr>media_codec := Some (pop_dequeue_input c)\<rparr>))"
    "drain_type (snd (QueueInput s)) = drain_type s"
    "state (snd (QueueInput s)) = ERROR"
    "trace (snd (QueueInput s)) =
       trace s @ (if client s then [ClientNotifyError PLATFORM_FAILURE] else [])"
  using assms
  by (simp_all add: QueueInput_def kMaxBitstreamsNotifiedInAdvance_def NotifyError_def emit_def
      Let_def)

lemma GetOutputSize_error_while_draining:
  assumes "output_open s" "drain_type s = DRAIN_FOR_RESET" "media_codec s = Some c"
    "dequeue_output_results c = r # rs" "out_status r = MEDIA_CODEC_OUTPUT_FORMAT_CHANGED"
    "fst (get_output_size_result c) \<noteq> MEDIA_CODEC_OK"
  shows "DequeueOutput s = (False, NotifyError PLATFORM_FAILURE (set_output_results rs s))"
    "drain_type (snd (DequeueOutput s)) = DRAIN_FOR_RESET"
    "state (snd (DequeueOutput s)) = ERROR"
    "trace (snd (DequeueOutput s)) =
       trace s @ (if client s then [ClientNotifyError PLATFORM_FAILURE] else [])"
  using assms
  by (simp_all add: DequeueOutput_def output_open_def IsDrainingForResetOrDestroy_def
      set_output_results_def NotifyError_def emit_def Let_def)

section \<open>Reset\<close>

lemma cancelled_inv_OnDrainCompleted:
  assumes "state s \<noteq> WAITING_FOR_CODEC" "state s \<noteq> SURFACE_DESTROYED"
    "only_eos (pending_bitstream_records s)"
  shows "cancelled_inv (OnDrainCompleted s)"
proof -
  have "ext quiet s (OnDrainCompleted s)" by (rule ext_OnDrainCompleted) simp_all
  then have "state (OnDrainCompleted s) \<noteq> SURFACE_DESTROYED" using assms(2) by (auto elim!: extE)
  then show ?thesis using assms OnDrainCompleted_maps [of s] by (simp add: cancelled_inv_def)
qed

lemma IsDraining_simps [simp]:
  "IsDrainingForResetOrDestroy (NotifyError e s) = IsDrainingForResetOrDestroy s"
  "IsDrainingForResetOrDestroy (emit ev s) = IsDrainingForResetOrDestroy s"
  "IsDrainingForResetOrDestroy (s\<lparr>fault := f\<rparr>) = IsDrainingForResetOrDestroy s"
  "IsDrainingForResetOrDestroy (s\<lparr>output_size := z\<rparr>) = IsDrainingForResetOrDestroy s"
  "IsDrainingForResetOrDestroy (s\<lparr>state := x\<rparr>) = IsDrainingForResetOrDestroy s"
  "IsDrainingForResetOrDestroy (s\<lparr>media_codec := m\<rparr>) = IsDrainingForResetOrDestroy s"
  "IsDrainingForResetOrDestroy (s\<lparr>pending_bitstream_records := p\<rparr>) = IsDrainingForResetOrDestroy s"
  by (simp_all add: IsDrainingForResetOrDestroy_def)

lemma cancelled_inv_simps [simp]:
  "cancelled_inv (NotifyError e s) = (cancelled_inv (s\<lparr>state := ERROR\<rparr>))"
  "cancelled_inv (emit ev s) = cancelled_inv s"
  "cancelled_inv (s\<lparr>fault := f\<rparr>) = cancelled_inv s"
  "cancelled_inv (s\<lparr>output_size := z\<rparr>) = cancelled_inv s"
  "cancelled_inv (s\<lparr>media_codec := m\<rparr>) = cancelled_inv s"
  "cancelled_inv (set_output_results rs s) = cancelled_inv s"
  by (simp_all add: cancelled_inv_def)

lemma cancelled_inv_error: "cancelled_inv s \<Longrightarrow> cancelled_inv (s\<lparr>state := ERROR\<rparr>)"
  by (simp add: cancelled_inv_def)

lemma loop_cancelled:
  assumes "cancelled_inv t"
  shows "case DequeueOutput_loop rs t of Inl (b, t') \<Rightarrow> cancelled_inv t' | Inr x \<Rightarrow> True"
  using assms
proof (induction rs arbitrary: t)
  case Nil
  then show ?case by simp
next
  case (Cons r rs)
  define s1 where "s1 = set_output_results rs t"
  have c1: "cancelled_inv s1" using Cons.prems by (simp add: s1_def)
  then have eos: "only_eos (pending_bitstream_records s1)" by (simp add: cancelled_inv_def)
  have dr: "cancelled_inv (OnDrainCompleted (s1\<lparr>state := ERROR\<rparr>))"
    by (rule cancelled_inv_OnDrainCompleted) (use eos in simp_all)
  note IH = Cons.IH [OF c1]
  have other: "(if out_index r < 0 then DequeueOutput_loop rs s1 else Inr (r, s1)) = X \<Longrightarrow>
     (case X of Inl (b, t') \<Rightarrow> cancelled_inv t' | Inr x \<Rightarrow> True)" for X
    using IH by (auto split: if_splits)
  show ?case
    apply (simp only: DequeueOutput_loop.simps Let_def s1_def [symmetric])
    apply (cases "out_status r")
    using c1 dr other cancelled_inv_error [OF c1]
    by (auto split: option.splits simp del: DequeueOutput_loop.simps)
qed

lemma deliver_cancelled:
  assumes "cancelled_inv t" "state t \<noteq> WAITING_FOR_CODEC" "DequeueOutput_deliver r t = (b, t')"
  shows "cancelled_inv t'"
proof -
  have eos: "only_eos (pending_bitstream_records t)" "state t \<noteq> SURFACE_DESTROYED"
    using assms(1) by (simp_all add: cancelled_inv_def)
  have m: "\<not> IsDrainingForResetOrDestroy t \<Longrightarrow> map_find k (bitstream_buffers_in_decoder t) = None" for k
    using assms(1) by (auto simp: cancelled_inv_def)
  show ?thesis
    using assms(3) cancelled_inv_OnDrainCompleted [OF assms(2) eos(2,1)] assms(1) m
    unfolding DequeueOutput_deliver_def Let_def
    by (auto split: if_splits)
qed

lemma DequeueOutput_cancelled:
  assumes "cancelled_inv t" "DequeueOutput t = (b, t')"
  shows "cancelled_inv t'"
proof (cases "state t = ERROR \<or> state t = WAITING_FOR_CODEC \<or>
      (output_picture_buffers t \<noteq> [] \<and> free_picture_ids t = [] \<and> \<not> IsDrainingForResetOrDestroy t) \<or>
      (pending_surface_id t \<noteq> None \<and> has_unrendered_pictures (platform t))")
  case True
  then have "t' = t" using assms(2) unfolding DequeueOutput_def by (auto split: if_splits)
  then show ?thesis using assms(1) by simp
next
  case False
  obtain ok s1 where u: "(if pending_surface_id t \<noteq> None then UpdateSurface t else (True, t)) = (ok, s1)"
    by (cases "if pending_surface_id t \<noteq> None then UpdateSurface t else (True, t)")
  have c1: "cancelled_inv s1" "ok \<longrightarrow> state s1 = state t"
  proof -
    show "cancelled_inv s1"
    proof (cases "pending_surface_id t \<noteq> None")
      case True
      then have us: "UpdateSurface t = (ok, s1)" using u by simp
      have "ext quiet t s1" by (rule ext_UpdateSurface [OF ext_refl _ us]) simp
      then have "state s1 \<noteq> SURFACE_DESTROYED" using assms(1)
        by (auto elim!: extE simp: cancelled_inv_def)
      then show ?thesis using UpdateSurface_fields(1,2,3) [OF us] assms(1)
        by (simp add: cancelled_inv_def IsDrainingForResetOrDestroy_def)
    next
      case F: False
      then show ?thesis using u assms(1) by simp
    qed
    show "ok \<longrightarrow> state s1 = state t"
      using u UpdateSurface_fields(6) [of t ok s1] by (auto split: if_splits)
  qed
  have d: "DequeueOutput t = (if \<not> ok then (False, s1)
            else
              (case media_codec s1 of
                 None \<Rightarrow> (False, s1\<lparr>fault := True\<rparr>)
               | Some c \<Rightarrow>
                   (case DequeueOutput_loop (dequeue_output_results c) s1 of
                      Inl res \<Rightarrow> res
                    | Inr (r, s2) \<Rightarrow> DequeueOutput_deliver r s2)))"
    using False u unfolding DequeueOutput_def Let_def by (auto simp del: not_None_eq)
  show ?thesis
  proof (cases ok)
    case F: False
    then show ?thesis using d assms(2) c1 by simp
  next
    case True
    show ?thesis
    proof (cases "media_codec s1")
      case None
      then show ?thesis using d assms(2) c1 True by auto
    next
      case (Some c)
      show ?thesis
      proof (cases "DequeueOutput_loop (dequeue_output_results c) s1")
        case (Inl res)
        then show ?thesis using loop_cancelled [OF c1(1), of "dequeue_output_results c"] d assms(2) True Some
          by (cases res) auto
      next
        case (Inr x)
        obtain r s2 where x: "x = (r, s2)" by (cases x)
        have e: "ext quiet t s1"
        proof (cases "pending_surface_id t \<noteq> None")
          case T: True
          then have us: "UpdateSurface t = (ok, s1)" using u by simp
          show ?thesis by (rule ext_UpdateSurface [OF ext_refl _ us]) simp
        next
          case F: False
          then show ?thesis using u by simp
        qed
        from DequeueOutput_loop_ext [OF e _ Some refl] Inr x
        obtain rs' where s2: "s2 = set_output_results rs' s1" by auto
        have c2: "cancelled_inv s2" "state s2 \<noteq> WAITING_FOR_CODEC"
          using c1 True False by (simp_all add: s2)
        have "DequeueOutput_deliver r s2 = (b, t')" using d assms(2) True Some Inr x by simp
        from deliver_cancelled [OF c2 this] show ?thesis .
      qed
    qed
  qed
qed

lemma QueueInput_submit_eos:
  assumes "buffer_id (buffer (hd (pending_bitstream_records t))) = -1"
  shows "QueueInput_submit i c t =
     (True, emit (CodecQueueEOS i) (t\<lparr>pending_bitstream_records := tl (pending_bitstream_records t)\<rparr>))"
  using assms by (simp add: QueueInput_submit_def Let_def)

lemma only_eos_hd_tl:
  assumes "only_eos rs" "rs \<noteq> []"
  shows "buffer_id (buffer (hd rs)) = -1" "only_eos (tl rs)"
  using assms by (cases rs; simp add: only_eos_def)+

lemma QueueInput_cancelled:
  assumes "cancelled_inv t" "QueueInput t = (b, t')"
  shows "cancelled_inv t'"
proof (cases "state t = ERROR \<or> state t = WAITING_FOR_CODEC \<or> state t = WAITING_FOR_KEY \<or>
     length (bitstreams_notified_in_advance t) > kMaxBitstreamsNotifiedInAdvance \<or> pending_bitstream_records t = []")
  case True
  then have "t' = t" using assms(2) by (auto simp: QueueInput_def split: if_splits)
  then show ?thesis using assms(1) by simp
next
  case False
  have eos: "only_eos (pending_bitstream_records t)" using assms(1) by (simp add: cancelled_inv_def)
  note ht = only_eos_hd_tl [OF eos]
  have pop: "cancelled_inv (u\<lparr>pending_bitstream_records := tl (pending_bitstream_records t)\<rparr>)"
    if "cancelled_inv u" for u
    using that ht(2) False by (simp add: cancelled_inv_def)
  show ?thesis
  proof (cases "media_codec t")
    case None
    then have "t' = t\<lparr>fault := True\<rparr>" using assms(2) False by (auto simp: QueueInput_def)
    then show ?thesis using assms(1) by simp
  next
    case (Some c)
    show ?thesis
    proof (cases "pending_input_buf_index t = -1")
      case True
      obtain st ix where n: "next_dequeue_input c = (st, ix)" by (cases "next_dequeue_input c")
      let ?s1 = "t\<lparr>media_codec := Some (pop_dequeue_input c)\<rparr>"
      have c1: "cancelled_inv ?s1" using assms(1) by simp
      show ?thesis
      proof (cases "st = MEDIA_CODEC_OK")
        case ok: True
        then have "QueueInput_submit ix (pop_dequeue_input c) ?s1 = (b, t')"
          using assms(2) False Some True n by (simp add: QueueInput_def Let_def)
        then have "t' = emit (CodecQueueEOS ix) (?s1\<lparr>pending_bitstream_records := tl (pending_bitstream_records ?s1)\<rparr>)"
          using QueueInput_submit_eos [of ?s1 ix "pop_dequeue_input c"] ht(1) False by simp
        then show ?thesis using pop [OF c1] by simp
      next
        case F: False
        then have "t' = ?s1 \<or> t' = NotifyError PLATFORM_FAILURE ?s1" using assms(2) False Some True n
          by (cases st) (auto simp: QueueInput_def Let_def)
        then show ?thesis using c1 cancelled_inv_error [OF c1] by auto
      qed
    next
      case F: False
      then have "QueueInput_submit (pending_input_buf_index t) c t = (b, t')"
        using assms(2) False Some by (simp add: QueueInput_def Let_def)
      then have "t' = emit (CodecQueueEOS (pending_input_buf_index t)) (t\<lparr>pending_bitstream_records := tl (pending_bitstream_records t)\<rparr>)"
        using QueueInput_submit_eos [of t "pending_input_buf_index t" c] ht(1) False by simp
      then show ?thesis using pop [OF assms(1)] by simp
    qed
  qed
qed

lemma ManageTimer_pending [simp]:
  "pending_bitstream_records (ManageTimer b s) = pending_bitstream_records s"
  by (simp add: ManageTimer_def Let_def)

lemma rounds_quiet:
  assumes "cancelled_inv s" "DoIOTask_rounds n w s = (w', s')"
  shows "ext quiet s s' \<and> cancelled_inv s'"
  using assms
proof (induction n arbitrary: w s)
  case 0
  then show ?case by simp
next
  case (Suc n)
  obtain di s1 where q: "QueueInput s = (di, s1)" by (cases "QueueInput s")
  obtain dout s2 where d: "DequeueOutput s1 = (dout, s2)" by (cases "DequeueOutput s1")
  have i0: "\<forall>r\<in>set (pending_bitstream_records s). buffer_id (buffer r) = - 1"
    using Suc.prems(1) by (simp add: cancelled_inv_def only_eos_def list_all_iff)
  have e1: "ext quiet s s1"
    by (rule ext_QueueInput [OF ext_refl _ _ q]) (use i0 in simp_all)
  have c1: "cancelled_inv s1" using Suc.prems(1) q by (rule QueueInput_cancelled)
  have e2: "ext quiet s s2"
    using ext_DequeueOutput [OF e1 _ _ d] c1 by (auto simp: cancelled_inv_def)
  have c2: "cancelled_inv s2" using c1 d by (rule DequeueOutput_cancelled)
  show ?case
  proof (cases "di \<or> dout")
    case True
    then have "DoIOTask_rounds n True s2 = (w', s')" using Suc.prems q d by simp
    from Suc.IH [OF c2 this] e2 show ?thesis by (auto intro: ext_trans)
  next
    case False
    then show ?thesis using Suc.prems q d e2 c2 by simp
  qed
qed

lemma DoIOTask_quiet:
  assumes "IsDrainingForResetOrDestroy s \<or> bitstream_buffers_in_decoder s = []"
    "only_eos (pending_bitstream_records s)"
  shows "ext quiet s (DoIOTask b s) \<and> only_eos (pending_bitstream_records (DoIOTask b s))"
proof (cases "state s = ERROR \<or> state s = WAITING_FOR_CODEC \<or> state s = SURFACE_DESTROYED")
  case True
  then show ?thesis using assms by (auto simp: DoIOTask_def)
next
  case False
  let ?s1 = "emit PbmMaybeRenderEarly s"
  obtain w s2 where r: "DoIOTask_rounds (Suc (io_measure ?s1)) False ?s1 = (w, s2)"
    by (cases "DoIOTask_rounds (Suc (io_measure ?s1)) False ?s1")
  have c1: "cancelled_inv ?s1" using assms False by (simp add: cancelled_inv_def)
  have e1: "ext quiet s ?s1" by (intro ext_emit ext_refl) simp_all
  note R = rounds_quiet [OF c1 r]
  have e2: "ext quiet s s2" using e1 R by (auto intro: ext_trans)
  have D: "DoIOTask b s = ManageTimer (w \<or> b) s2" using False r by (simp add: DoIOTask_def Let_def)
  have "ext quiet s (DoIOTask b s)" unfolding D using e2 by (auto intro!: ext_ManageTimer)
  moreover have "only_eos (pending_bitstream_records (DoIOTask b s))"
    unfolding D using R by (simp add: cancelled_inv_def)
  ultimately show ?thesis by simp
qed

lemma quiet_no_ids:
  "list_all quiet evs \<Longrightarrow> eobb_ids evs = [] \<and> picture_ready_ids evs = []"
proof (induction evs)
  case Nil
  then show ?case by simp
next
  case (Cons e evs)
  then have q: "quiet e" and r: "eobb_ids evs = []" "picture_ready_ids evs = []" by simp_all
  show ?case
  proof (cases e)
    case (PostTask t)
    then show ?thesis using q r by (cases t) simp_all
  qed (use q r in simp_all)
qed

lemma ext_quiet_ids:
  assumes "ext quiet s s'"
  shows "eobb_ids (trace s') = eobb_ids (trace s)" "picture_ready_ids (trace s') = picture_ready_ids (trace s)"
proof -
  from assms obtain evs where "trace s' = trace s @ evs" "list_all quiet evs" by (auto elim!: extE)
  then show "eobb_ids (trace s') = eobb_ids (trace s)" "picture_ready_ids (trace s') = picture_ready_ids (trace s)"
    using quiet_no_ids [of evs] by simp_all
qed

lemma cancel_pending_trace:
  "cancel_pending rs s =
     s\<lparr>trace := trace s @ map (\<lambda>i. PostTask (NotifyEndOfBitstreamBuffer i)) (cancelled_ids rs)\<rparr>"
proof (induction rs arbitrary: s)
  case Nil
  then show ?case by (simp add: cancelled_ids_def)
next
  case (Cons r rs)
  show ?case by (simp add: Cons.IH cancelled_ids_def emit_def)
qed

lemma eobb_ids_posts [simp]:
  "eobb_ids (map (\<lambda>i. PostTask (NotifyEndOfBitstreamBuffer i)) ids) = ids"
  "picture_ready_ids (map (\<lambda>i. PostTask (NotifyEndOfBitstreamBuffer i)) ids) = []"
  by (induction ids) simp_all

text \<open>
  Reset outside the deferred case: every pending record that is not an end-of-stream marker
  gets exactly one posted NotifyEndOfBitstreamBuffer with its id, in queue order, and
  nothing else is posted for any bitstream id; no picture is sent to the client during
  Reset; and afterwards none of those records is left in the queue, so none of them can
  reach the codec or produce a picture later.
\<close>

lemma Reset_not_deferred:
  assumes "\<not> defer_surface_creation s"
  shows "eobb_ids (trace (Reset s)) =
           eobb_ids (trace s) @ cancelled_ids (pending_bitstream_records s)
    \<and> picture_ready_ids (trace (Reset s)) = picture_ready_ids (trace s)
    \<and> only_eos (pending_bitstream_records (Reset s))"
proof -
  have False: "\<not> defer_surface_creation s" by (rule assms)
  define s2 where "s2 = emit PbmReleaseCodecBuffers
     (((cancel_pending (pending_bitstream_records s) s)\<lparr>pending_bitstream_records := []\<rparr>)
        \<lparr>bitstreams_notified_in_advance := []\<rparr>)"
  have t2: "eobb_ids (trace s2) = eobb_ids (trace s) @ cancelled_ids (pending_bitstream_records s)"
    "picture_ready_ids (trace s2) = picture_ready_ids (trace s)"
    "pending_bitstream_records s2 = []"
    by (simp_all add: s2_def cancel_pending_trace)
  define dr where "dr \<longleftrightarrow> media_codec s2 \<noteq> None \<and> codec s2 = kCodecVP8 \<and>
               bitstream_buffers_in_decoder s2 \<noteq> []"
  have R: "Reset s = (if dr then StartCodecDrain DRAIN_FOR_RESET s2
            else emit (PostTask NotifyResetDone) (ResetCodecState s2))"
    using False unfolding dr_def by (auto simp: Reset_def Let_def s2_def)
  show ?thesis
  proof (cases dr)
    case drain: True
    show ?thesis
    proof (cases "drain_type s2 = DRAIN_TYPE_NONE")
      case True
      let ?t = "s2\<lparr>drain_type := DRAIN_FOR_RESET,
                   pending_bitstream_records := [\<lparr>buffer = eos_buffer, memory = None\<rparr>]\<rparr>"
      have D: "Reset s = DoIOTask True ?t"
        using R drain True t2(3) by (simp add: StartCodecDrain_def DecodeBuffer_def)
      have q: "ext quiet ?t (DoIOTask True ?t) \<and> only_eos (pending_bitstream_records (DoIOTask True ?t))"
        by (rule DoIOTask_quiet)
          (simp_all add: IsDrainingForResetOrDestroy_def only_eos_def eos_buffer_def)
      show ?thesis unfolding D using ext_quiet_ids [of ?t "DoIOTask True ?t"] q t2 by simp
    next
      case F: False
      then have "Reset s = s2\<lparr>drain_type := DRAIN_FOR_RESET\<rparr>"
        using R drain by (simp add: StartCodecDrain_def)
      then show ?thesis using t2 by (simp add: only_eos_def)
    qed
  next
    case nodrain: False
    then have D: "Reset s = emit (PostTask NotifyResetDone) (ResetCodecState s2)" using R by simp
    have "ext quiet s2 (ResetCodecState s2)" by (rule ext_ResetCodecState) simp_all
    from ext_quiet_ids [OF this] show ?thesis unfolding D using t2
      by (simp add: ResetCodecState_maps only_eos_def)
  qed
qed

lemma Reset_not_deferred_example:
  "\<not> defer_surface_creation queued_vp8_decoder
   \<and> cancelled_ids (pending_bitstream_records queued_vp8_decoder) = [1, 2]
   \<and> eobb_ids (trace (Reset queued_vp8_decoder)) = [1, 2]
   \<and> picture_ready_ids (trace (Reset queued_vp8_decoder)) = []
   \<and> only_eos (pending_bitstream_records (Reset queued_vp8_decoder))"
proof -
  have h: "\<not> defer_surface_creation queued_vp8_decoder"
    "cancelled_ids (pending_bitstream_records queued_vp8_decoder) = [1, 2]"
    "trace queued_vp8_decoder = []"
    by (simp_all add: queued_vp8_decoder_def steady_decoder_def mcvd_init_def cancelled_ids_def
        mk_BitstreamRecord_def plain_buffer_def)
  from Reset_not_deferred [OF h(1)] h show ?thesis by simp
qed

text \<open>
  C2 fails while surface creation is deferred. On a low-end device the client initializes an
  encrypted H264 stream without a surface (surface creation is deferred), sends a buffer
  with the invalid id -5 (the decoder reports INVALID_ARGUMENT and is in state ERROR), then
  buffer 1, which is queued and never submitted, and then calls Reset. Reset takes its
  deferred branch: it posts NotifyResetDone and nothing else. Buffer 1 gets no
  NotifyEndOfBitstreamBuffer and is still in the pending queue afterwards, against the
  assertion in that branch that the queue is empty.
\<close>

theorem Reset_deferred_skips_pending:
  "fst (Initialize encrypted_config (mcvd_init low_end_platform))
   \<and> \<not> fault deferred_decoder
   \<and> defer_surface_creation deferred_decoder
   \<and> media_codec deferred_decoder = None
   \<and> client_errors (trace deferred_decoder) = [INVALID_ARGUMENT]
   \<and> cancelled_ids (pending_bitstream_records deferred_decoder) = [1]
   \<and> eobb_ids (trace deferred_decoder) = []
   \<and> Reset deferred_decoder = emit (PostTask NotifyResetDone) deferred_decoder
   \<and> eobb_ids (trace (Reset deferred_decoder)) = []
   \<and> cancelled_ids (pending_bitstream_records (Reset deferred_decoder)) = [1]"
proof -
  have i: "Initialize encrypted_config (mcvd_init low_end_platform) =
      (True, (mcvd_init low_end_platform)
         \<lparr>client := True, surface_id := -1, is_encrypted := True, codec := kCodecH264,
          initial_expected_coded_size := (640, 480), defer_surface_creation := True,
          trace := [CallNotifyInitializationComplete True]\<rparr>)"
    by (simp add: Initialize_def encrypted_config_def low_end_platform_def ok_platform_def
        mcvd_init_def ShouldDeferSurfaceCreation_def IsMediaCodecSoftwareDecodingForbidden_def
        kNoSurfaceID_def emit_def Let_def)
  have d: "deferred_decoder =
      (mcvd_init low_end_platform)
         \<lparr>client := True, state := ERROR, surface_id := -1, is_encrypted := True,
          codec := kCodecH264, initial_expected_coded_size := (640, 480),
          defer_surface_creation := True,
          pending_bitstream_records := [mk_BitstreamRecord (plain_buffer 1) mapped_region],
          trace := [CallNotifyInitializationComplete True,
                    PbmInitialize (-1), StartThread, CallNotifyInitializationComplete False,
                    ClientNotifyError INVALID_ARGUMENT,
                    PbmInitialize (-1), StartThread, CallNotifyInitializationComplete False]\<rparr>"
    unfolding deferred_decoder_def i
    by (simp add: Decode_def InitializePictureBufferManager_def InitializeCdm_def
        DecodeBuffer_def DoIOTask_def NotifyError_def invalid_buffer_def plain_buffer_def
        low_end_platform_def ok_platform_def mcvd_init_def emit_def Let_def
        mk_BitstreamRecord_def)
  have r: "Reset deferred_decoder = emit (PostTask NotifyResetDone) deferred_decoder"
    unfolding d by (simp add: Reset_def)
  show ?thesis unfolding r using i
    unfolding d
    by (simp add: emit_def cancelled_ids_def mk_BitstreamRecord_def plain_buffer_def
        mcvd_init_def)
qed

section \<open>Destroy\<close>

lemma count_release_append [simp]:
  "count_release (xs @ ys) = count_release xs + count_release ys"
  by (simp add: count_release_def)












text \<open>The drain for destroy on the VP8 example, where the codec reports the end of the
  stream within the same I/O task: the teardown is only posted.\<close>

lemma Destroy_vp8_example:
  "trace (Destroy busy_vp8_decoder) =
     [PbmDestroy, PbmMaybeRenderEarly, CodecQueueEOS 2, CodecFlush, PbmCodecChanged True,
      PostTask ActualDestroyTask, ManagerStartTimer]
   \<and> \<not> deleted (Destroy busy_vp8_decoder)
   \<and> drain_type (Destroy busy_vp8_decoder) = DRAIN_TYPE_NONE"
  by (simp add: busy_vp8_decoder_def steady_decoder_def idle_codec_def mcvd_init_def
      ok_platform_def eos_output_def eos_buffer_def Destroy_def StartCodecDrain_def
      DecodeBuffer_def DoIOTask_def io_measure_def out_len_def QueueInput_def
      QueueInput_submit_def kMaxBitstreamsNotifiedInAdvance_def next_dequeue_input_def
      pop_dequeue_input_def DequeueOutput_def DequeueOutput_deliver_def set_output_results_def
      IsDrainingForResetOrDestroy_def OnDrainCompleted_def ResetCodecState_def ManageTimer_def
      emit_def Let_def)

text \<open>
  Destroy during another drain. Flush on a VP8 decoder whose codec has no input buffer free
  leaves the end-of-stream marker in the pending queue; Destroy then clears the queue and
  only changes the drain intent, so the codec is never told to end the stream: as long as
  the codec reports nothing, no tick posts the ActualDestroy task and the decoder is not
  torn down.
\<close>

lemma idle_ticks:
  assumes "media_codec s = Some c" "only_try_again c" "pending_surface_id s = None"
    "state s = NO_ERROR \<longrightarrow> pending_input_buf_index s = -1"
  shows "\<exists>c' t evs. ((DoIOTask False) ^^ n) s =
            s\<lparr>media_codec := Some c', most_recent_work := t, trace := trace s @ evs\<rparr>
      \<and> only_try_again c' \<and> set evs \<subseteq> {PbmMaybeRenderEarly, ManagerStartTimer, ManagerStopTimer}"
proof (induction n)
  case 0
  have "s = s\<lparr>media_codec := Some c, most_recent_work := most_recent_work s, trace := trace s @ []\<rparr>"
    using assms(1) by simp
  then show ?case using assms(2) by (metis empty_set empty_subsetI funpow_0)
next
  case (Suc n)
  then obtain c1 t1 e1 where
    k: "((DoIOTask False) ^^ n) s =
          s\<lparr>media_codec := Some c1, most_recent_work := t1, trace := trace s @ e1\<rparr>"
      "only_try_again c1" "set e1 \<subseteq> {PbmMaybeRenderEarly, ManagerStartTimer, ManagerStopTimer}"
    by blast
  let ?k = "s\<lparr>media_codec := Some c1, most_recent_work := t1, trace := trace s @ e1\<rparr>"
  have h: "media_codec ?k = Some c1" "pending_surface_id ?k = None"
    "state ?k = NO_ERROR \<longrightarrow> pending_input_buf_index ?k = -1"
    using assms by simp_all
  from DoIOTask_idle [OF h(1) k(2) h(2,3), of False] obtain c2 t2 e2 where
    d: "DoIOTask False ?k = ?k\<lparr>media_codec := Some c2, most_recent_work := t2, trace := trace ?k @ e2\<rparr>"
      "only_try_again c2" "set e2 \<subseteq> {PbmMaybeRenderEarly, ManagerStartTimer, ManagerStopTimer}"
    by blast
  have "((DoIOTask False) ^^ Suc n) s =
      s\<lparr>media_codec := Some c2, most_recent_work := t2, trace := trace s @ (e1 @ e2)\<rparr>"
    using k(1) d(1) by simp
  moreover have "set (e1 @ e2) \<subseteq> {PbmMaybeRenderEarly, ManagerStartTimer, ManagerStopTimer}"
    using k(3) d(3) by simp
  ultimately show ?case using d(2) by blast
qed

lemma Flush_then_Destroy_stalls:
  "destroy_drains (Flush idle_vp8_decoder)
   \<and> map (\<lambda>r. buffer_id (buffer r)) (pending_bitstream_records (Flush idle_vp8_decoder)) = [-1]
   \<and> trace (Destroy (Flush idle_vp8_decoder)) = trace (Flush idle_vp8_decoder) @ [PbmDestroy]
   \<and> pending_bitstream_records (Destroy (Flush idle_vp8_decoder)) = []
   \<and> drain_type (((DoIOTask False) ^^ n) (Destroy (Flush idle_vp8_decoder))) = DRAIN_FOR_DESTROY
   \<and> \<not> destroy_posted (((DoIOTask False) ^^ n) (Destroy (Flush idle_vp8_decoder)))
   \<and> \<not> deleted (((DoIOTask False) ^^ n) (Destroy (Flush idle_vp8_decoder)))
   \<and> count_release (trace (((DoIOTask False) ^^ n) (Destroy (Flush idle_vp8_decoder)))) = 0"
proof -
  have f: "Flush idle_vp8_decoder =
      idle_vp8_decoder\<lparr>drain_type := DRAIN_FOR_FLUSH,
        pending_bitstream_records := [\<lparr>buffer = eos_buffer, memory = None\<rparr>],
        trace := [PbmMaybeRenderEarly, ManagerStartTimer]\<rparr>"
    by (simp add: idle_vp8_decoder_def steady_decoder_def idle_codec_def mcvd_init_def
        ok_platform_def Flush_def StartCodecDrain_def DecodeBuffer_def DoIOTask_def
        io_measure_def out_len_def QueueInput_def kMaxBitstreamsNotifiedInAdvance_def
        next_dequeue_input_def pop_dequeue_input_def DequeueOutput_def
        IsDrainingForResetOrDestroy_def ManageTimer_def emit_def Let_def)
  define d where "d = idle_vp8_decoder\<lparr>client := False, drain_type := DRAIN_FOR_DESTROY,
        pending_bitstream_records := [],
        trace := [PbmMaybeRenderEarly, ManagerStartTimer, PbmDestroy]\<rparr>"
  have D: "Destroy (Flush idle_vp8_decoder) = d"
    unfolding f d_def
    by (simp add: idle_vp8_decoder_def steady_decoder_def mcvd_init_def Destroy_def
        StartCodecDrain_def emit_def Let_def)
  have h: "media_codec d = Some idle_codec" "only_try_again idle_codec"
    "pending_surface_id d = None" "state d = NO_ERROR \<longrightarrow> pending_input_buf_index d = -1"
    by (simp_all add: d_def idle_vp8_decoder_def steady_decoder_def mcvd_init_def
        only_try_again_def idle_codec_def)
  from idle_ticks [OF h, of n] obtain c' t evs where
    k: "((DoIOTask False) ^^ n) d = d\<lparr>media_codec := Some c', most_recent_work := t, trace := trace d @ evs\<rparr>"
      "set evs \<subseteq> {PbmMaybeRenderEarly, ManagerStartTimer, ManagerStopTimer}" by blast
  have e: "PostTask ActualDestroyTask \<notin> set evs" "ReleaseMediaCodec \<notin> set evs"
    using k(2) by auto
  have a: "destroy_drains (Flush idle_vp8_decoder)"
    "map (\<lambda>r. buffer_id (buffer r)) (pending_bitstream_records (Flush idle_vp8_decoder)) = [-1]"
    unfolding f
    by (simp_all add: destroy_drains_def idle_vp8_decoder_def steady_decoder_def eos_buffer_def)
  have b: "trace d = trace (Flush idle_vp8_decoder) @ [PbmDestroy]" "pending_bitstream_records d = []"
    "drain_type d = DRAIN_FOR_DESTROY" "\<not> deleted d"
    unfolding f by (simp_all add: d_def idle_vp8_decoder_def steady_decoder_def mcvd_init_def)
  have c: "count_release (trace d @ evs) = 0" "\<not> destroy_posted (d\<lparr>media_codec := Some c', most_recent_work := t, trace := trace d @ evs\<rparr>)"
    using e by (auto simp: d_def count_release_def destroy_posted_def filter_empty_conv)
  show ?thesis unfolding D k(1) using a b c unfolding D by simp
qed

section \<open>The polling timer: proofs\<close>

lemma set_insert_set [simp]: "set (set_insert x xs) = insert x (set xs)"
  by (auto simp: set_insert_def set_insort_key)
lemma set_erase_set [simp]: "set (set_erase x xs) = set xs - {x}"
  by (auto simp: set_erase_def)
lemma set_insert_nonempty [simp]: "set_insert x xs \<noteq> []"
  by (metis set_insert_set empty_iff insert_iff list.set(1) insertI1)
lemma set_insert_mem: "x \<in> set xs \<Longrightarrow> set_insert x xs = xs"
  by (simp add: set_insert_def)

lemma StartTimer_inv: "timer_inv g \<Longrightarrow> timer_inv (StartTimer m g) \<and> pending_erase (StartTimer m g) = pending_erase g"
  by (auto simp: timer_inv_def StartTimer_def Let_def)

lemma StopTimer_inv: "timer_inv g \<Longrightarrow> timer_inv (StopTimer m g) \<and> pending_erase (StopTimer m g) = pending_erase g
   \<and> set (timer_mcvd_instances (StopTimer m g)) = set (timer_mcvd_instances g) - {m}"
proof -
  have e: "set_erase m xs = [] \<longleftrightarrow> set xs \<subseteq> {m}" for xs
    by (auto simp: set_erase_def removeAll_filter_not_eq filter_empty_conv)
  assume "timer_inv g" then show ?thesis
    by (auto simp: timer_inv_def StopTimer_def Let_def e)
qed

lemma fold_StopTimer_inv:
  "timer_inv g \<Longrightarrow> timer_inv (fold StopTimer ms g) \<and>
     set (timer_mcvd_instances (fold StopTimer ms g)) = set (timer_mcvd_instances g) - set ms"
proof (induction ms arbitrary: g)
  case Nil then show ?case by simp
next
  case (Cons m ms)
  from StopTimer_inv [OF Cons.prems, of m] Cons.IH [of "StopTimer m g"]
  show ?case by auto
qed

lemma apply_call_running:
  assumes "timer_running g" "m \<in> set (timer_mcvd_instances g)" "io_timer_is_running g"
  shows "timer_running (apply_call m c g)"
    "timer_mcvd_instances (apply_call m c g) = timer_mcvd_instances g"
    "io_timer_is_running (apply_call m c g)"
    "set (pending_erase (apply_call m c g)) = pend_after [c] m (set (pending_erase g))"
  using assms by (cases c; auto simp: StartTimer_def StopTimer_def Let_def set_insert_mem pend_after_def)+

lemma fold_apply_call_running:
  assumes "timer_running g" "m \<in> set (timer_mcvd_instances g)" "io_timer_is_running g"
  shows "timer_running (fold (apply_call m) cs g) \<and>
    timer_mcvd_instances (fold (apply_call m) cs g) = timer_mcvd_instances g \<and>
    io_timer_is_running (fold (apply_call m) cs g) \<and>
    set (pending_erase (fold (apply_call m) cs g)) = pend_after cs m (set (pending_erase g))"
  using assms
proof (induction cs arbitrary: g)
  case Nil then show ?case by (simp add: pend_after_def)
next
  case (Cons c cs)
  note a = apply_call_running [OF Cons.prems, of c]
  have "m \<in> set (timer_mcvd_instances (apply_call m c g))" using a Cons.prems by simp
  from Cons.IH [OF a(1) this a(3)] a show ?case
    by (cases c; cases "cs = []"; auto simp: pend_after_def)
qed

lemma fold_instances_running:
  assumes "timer_running g" "set xs \<subseteq> set (timer_mcvd_instances g)" "io_timer_is_running g"
  shows "timer_running (fold (\<lambda>m. fold (apply_call m) (io m)) xs g) \<and>
    timer_mcvd_instances (fold (\<lambda>m. fold (apply_call m) (io m)) xs g) = timer_mcvd_instances g \<and>
    io_timer_is_running (fold (\<lambda>m. fold (apply_call m) (io m)) xs g) \<and>
    set (pending_erase (fold (\<lambda>m. fold (apply_call m) (io m)) xs g)) =
      (set (pending_erase g) - {m \<in> set xs. \<not> stopped io m \<and> io m \<noteq> []}) \<union> {m \<in> set xs. stopped io m}"
  using assms
proof (induction xs arbitrary: g)
  case Nil then show ?case by simp
next
  case (Cons m xs)
  have m: "m \<in> set (timer_mcvd_instances g)" using Cons.prems by simp
  note a = fold_apply_call_running [OF Cons.prems(1) m Cons.prems(3), of "io m"]
  have sub: "set xs \<subseteq> set (timer_mcvd_instances (fold (apply_call m) (io m) g))"
    using a Cons.prems by simp
  from Cons.IH [OF _ sub] a show ?case
    by (auto simp: pend_after_def stopped_def split: if_splits)
qed

lemma RunTimer_inv:
  assumes "timer_inv g" "pending_erase g = []"
  shows "timer_inv (RunTimer io g) \<and> pending_erase (RunTimer io g) = [] \<and>
    set (timer_mcvd_instances (RunTimer io g)) =
      {m \<in> set (timer_mcvd_instances g). \<not> stopped io m}"
proof (cases "timer_mcvd_instances g = []")
  case True
  then show ?thesis using assms by (simp add: RunTimer_def RunTimer_pass_def timer_inv_def)
next
  case False
  let ?g1 = "g\<lparr>timer_running := True\<rparr>"
  let ?g2 = "fold (\<lambda>m. fold (apply_call m) (io m)) (timer_mcvd_instances ?g1) ?g1"
  let ?g3 = "?g2\<lparr>timer_running := False\<rparr>"
  have run: "io_timer_is_running ?g1" using False assms by (simp add: timer_inv_def)
  have f: "timer_mcvd_instances ?g2 = timer_mcvd_instances g" "io_timer_is_running ?g2"
    "set (pending_erase ?g2) = {m \<in> set (timer_mcvd_instances g). stopped io m}"
    using fold_instances_running [of ?g1 "timer_mcvd_instances ?g1" io] run assms by auto
  have inv3: "timer_inv ?g3" using f False by (simp add: timer_inv_def)
  have R: "RunTimer io g = (fold StopTimer (pending_erase ?g3) ?g3)\<lparr>pending_erase := []\<rparr>"
    using assms by (simp add: RunTimer_def RunTimer_pass_def timer_inv_def Let_def)
  from fold_StopTimer_inv [OF inv3, of "pending_erase ?g3"] f show ?thesis
    unfolding R by (auto simp: timer_inv_def)
qed

lemma manager_step_inv:
  "timer_inv g \<and> pending_erase g = [] \<Longrightarrow> timer_inv (manager_step op g) \<and> pending_erase (manager_step op g) = []"
  by (cases op) (use StartTimer_inv StopTimer_inv RunTimer_inv in auto)

lemma fold_manager_step_inv:
  "timer_inv g \<and> pending_erase g = [] \<Longrightarrow> timer_inv (fold manager_step ops g) \<and> pending_erase (fold manager_step ops g) = []"
  by (induction ops arbitrary: g) (use manager_step_inv in auto)

lemma manager_run_inv: "timer_inv (manager_run ops) \<and> pending_erase (manager_run ops) = []"
  unfolding manager_run_def
  by (rule fold_manager_step_inv) (simp add: timer_inv_def manager_init_def)

text \<open>The states \<open>RunTimer_during\<close> are the ones the pass goes through: a visit ends where
  the next one begins.\<close>

lemma RunTimer_pass_snoc:
  "RunTimer_pass io (ms @ [k]) g = RunTimer_during io ms k (io k) g"
  by (simp add: RunTimer_pass_def RunTimer_during_def)

lemma RunTimer_during_snoc:
  "RunTimer_during io ms k (cs @ [c]) g = apply_call k c (RunTimer_during io ms k cs g)"
  by (simp add: RunTimer_during_def)

lemma RunTimer_during_inv:
  assumes "timer_inv g" "timer_mcvd_instances g = ms @ k # ms'"
  shows "timer_running (RunTimer_during io ms k cs g)"
    "timer_mcvd_instances (RunTimer_during io ms k cs g) = timer_mcvd_instances g"
    "set (pending_erase (RunTimer_during io ms k cs g)) =
       pend_after cs k (set (pending_erase (RunTimer_pass io ms g)))"
proof -
  let ?g1 = "g\<lparr>timer_running := True\<rparr>"
  have run: "timer_running ?g1" "io_timer_is_running ?g1" "set ms \<subseteq> set (timer_mcvd_instances ?g1)"
    using assms by (auto simp: timer_inv_def)
  note p = fold_instances_running [OF run(1,3,2), of io]
  have k: "k \<in> set (timer_mcvd_instances (RunTimer_pass io ms g))"
    using p assms(2) by (simp add: RunTimer_pass_def)
  from p have q: "timer_running (RunTimer_pass io ms g)" "io_timer_is_running (RunTimer_pass io ms g)"
    "timer_mcvd_instances (RunTimer_pass io ms g) = timer_mcvd_instances g"
    by (simp_all add: RunTimer_pass_def)
  note d = fold_apply_call_running [OF q(1) k q(2), of cs]
  show "timer_running (RunTimer_during io ms k cs g)"
    "timer_mcvd_instances (RunTimer_during io ms k cs g) = timer_mcvd_instances g"
    "set (pending_erase (RunTimer_during io ms k cs g)) =
       pend_after cs k (set (pending_erase (RunTimer_pass io ms g)))"
    using d q(3) by (simp_all add: RunTimer_during_def)
qed

text \<open>
  C9. At every point of a tick (after the visits of the instances \<open>ms\<close> and any number of
  the calls of the next instance \<open>k\<close>) \<open>timer_running\<close> is set and the instance set is the one
  the tick started with; if the last of those calls was StopTimer, \<open>k\<close> is recorded in
  \<open>pending_erase\<close>. In general StopTimer under \<open>timer_running\<close> leaves the instance set as it
  is and records the instance. After any run of StartTimer, StopTimer and RunTimer requests no
  tick is in progress, no erasure is pending and the repeating timer runs exactly when the
  instance set is not empty. A completed tick has removed exactly the instances whose last
  request during the tick was StopTimer, and a registration leaves the timer running.
\<close>

theorem manager_timer:
  "(timer_mcvd_instances (manager_run ops) = ms @ k # ms' \<longrightarrow>
      timer_running (RunTimer_during io ms k cs (manager_run ops)) \<and>
      timer_mcvd_instances (RunTimer_during io ms k cs (manager_run ops)) =
        timer_mcvd_instances (manager_run ops) \<and>
      (cs \<noteq> [] \<and> last cs = CallStopTimer \<longrightarrow>
         k \<in> set (pending_erase (RunTimer_during io ms k cs (manager_run ops)))))
   \<and> (timer_running g \<longrightarrow>
      timer_mcvd_instances (StopTimer m g) = timer_mcvd_instances g \<and>
      m \<in> set (pending_erase (StopTimer m g)))
   \<and> \<not> timer_running (manager_run ops)
   \<and> pending_erase (manager_run ops) = []
   \<and> (io_timer_is_running (manager_run ops) \<longleftrightarrow> timer_mcvd_instances (manager_run ops) \<noteq> [])
   \<and> set (timer_mcvd_instances (RunTimer io (manager_run ops))) =
       {k \<in> set (timer_mcvd_instances (manager_run ops)).
          io k = [] \<or> last (io k) = CallStartTimer}
   \<and> io_timer_is_running (manager_run (ops @ [Register m]))"
proof -
  have inv: "timer_inv (manager_run ops)" "pending_erase (manager_run ops) = []"
    using manager_run_inv by auto
  have mid: "timer_mcvd_instances (manager_run ops) = ms @ k # ms' \<longrightarrow>
      timer_running (RunTimer_during io ms k cs (manager_run ops)) \<and>
      timer_mcvd_instances (RunTimer_during io ms k cs (manager_run ops)) =
        timer_mcvd_instances (manager_run ops) \<and>
      (cs \<noteq> [] \<and> last cs = CallStopTimer \<longrightarrow>
         k \<in> set (pending_erase (RunTimer_during io ms k cs (manager_run ops))))"
    using RunTimer_during_inv [OF inv(1), of ms k ms' io cs] by (auto simp: pend_after_def)
  have a: "timer_running g \<longrightarrow>
      timer_mcvd_instances (StopTimer m g) = timer_mcvd_instances g \<and>
      m \<in> set (pending_erase (StopTimer m g))"
    by (simp add: StopTimer_def)
  have st: "\<not> stopped io k \<longleftrightarrow> io k = [] \<or> last (io k) = CallStartTimer" for k
    by (cases "last (io k)") (auto simp: stopped_def)
  have c: "set (timer_mcvd_instances (RunTimer io (manager_run ops))) =
       {k \<in> set (timer_mcvd_instances (manager_run ops)).
          io k = [] \<or> last (io k) = CallStartTimer}"
    using RunTimer_inv [OF inv, of io] st by simp
  have d: "io_timer_is_running (manager_run (ops @ [Register m]))"
    using manager_run_inv [of "ops @ [Register m]"]
    by (simp add: timer_inv_def manager_run_def StartTimer_def Let_def)
  show ?thesis using mid a inv c d by (simp add: timer_inv_def)
qed

theorem manager_timer_witness:
  "timer_mcvd_instances (manager_run [Register 1, Register 2]) = [] @ 1 # [2]
   \<and> timer_running (RunTimer_during (\<lambda>k. if k = 1 then [CallStopTimer] else [CallStartTimer])
        [] 1 [CallStopTimer] (manager_run [Register 1, Register 2]))
   \<and> timer_mcvd_instances
        (RunTimer_during (\<lambda>k. if k = 1 then [CallStopTimer] else [CallStartTimer])
           [] 1 [CallStopTimer] (manager_run [Register 1, Register 2])) = [1, 2]
   \<and> 1 \<in> set (pending_erase
        (RunTimer_during (\<lambda>k. if k = 1 then [CallStopTimer] else [CallStartTimer])
           [] 1 [CallStopTimer] (manager_run [Register 1, Register 2])))
   \<and> timer_running (manager_init\<lparr>timer_mcvd_instances := [1], timer_running := True\<rparr>)
   \<and> timer_mcvd_instances
        (StopTimer 1 (manager_init\<lparr>timer_mcvd_instances := [1], timer_running := True\<rparr>)) = [1]
   \<and> io_timer_is_running (manager_run [Register 1, Register 2])
   \<and> set (timer_mcvd_instances
        (RunTimer (\<lambda>k. if k = 1 then [CallStopTimer] else [CallStartTimer])
           (manager_run [Register 1, Register 2]))) = {2}
   \<and> \<not> io_timer_is_running (manager_run [Register 1, Unregister 1])"
proof -
  have r: "manager_run [Register 1, Register 2]
           = \<lparr>timer_mcvd_instances = [1, 2], timer_running = False, pending_erase = [],
              io_timer_is_running = True\<rparr>"
    by (simp add: manager_run_def manager_init_def StartTimer_def set_insert_def Let_def)
  have e: "timer_mcvd_instances (manager_run [Register 1, Unregister 1]) = []"
    by (simp add: manager_run_def manager_init_def StartTimer_def StopTimer_def set_insert_def
        set_erase_def Let_def)
  have l: "timer_mcvd_instances (manager_run [Register 1, Register 2]) = [] @ 1 # [2]"
    using r by simp
  show ?thesis
    using manager_timer [of "[Register 1, Register 2]" "[]" 1 "[2]"
        "\<lambda>k. if k = 1 then [CallStopTimer] else [CallStartTimer]" "[CallStopTimer]"
        "manager_init\<lparr>timer_mcvd_instances := [1], timer_running := True\<rparr>" 1] l
      manager_timer [of "[Register 1, Unregister 1]" "[]" 1 "[]" "\<lambda>k. []" "[]" manager_init 1] r e
    by (auto simp: manager_init_def)
qed

end
